theory Spec2Isabelle
  imports Main "HOL-Library.AList"
begin

unbundle bit_operations_syntax

section \<open>Variable and array management (var.py)\<close>

subsection \<open>Errors, bytes and Python sequence access\<close>

text \<open>
  A BASIC error is \<open>error.RunError(n)\<close>; the other constructors are the Python
  exceptions that the module does not catch and that therefore leave it as they are.
\<close>

datatype error =
  RunError nat | KeyError | IndexError | TypeError | ValueError | ZeroDivisionError | AssertionError

type_synonym bytes = "nat list"

text \<open>A value is the pair \<open>(typechar, payload)\<close> that var.py passes around.\<close>

type_synonym val = "char \<times> bytes"

text \<open>\<open>xs[i]\<close>: a negative index counts from the end, anything outside raises.\<close>

definition py_index :: "'a list \<Rightarrow> int \<Rightarrow> error + 'a" where
  "py_index xs i =
     (let n = int (length xs); j = (if i < 0 then i + n else i)
      in if j < 0 \<or> n \<le> j then Inl IndexError else Inr (xs ! nat j))"

text \<open>A slice bound is clamped into \<open>0..len\<close>, after the same shift of negative bounds.\<close>

definition py_bound :: "nat \<Rightarrow> int \<Rightarrow> nat" where
  "py_bound n i = (if i < 0 then nat (max 0 (i + int n)) else min n (nat i))"

definition py_slice :: "'a list \<Rightarrow> int \<Rightarrow> int \<Rightarrow> 'a list" where
  "py_slice xs a b =
     (let lo = py_bound (length xs) a; hi = py_bound (length xs) b
      in take (hi - lo) (drop lo xs))"

text \<open>\<open>xs[a:b] = v\<close> replaces the slice by \<open>v\<close>, whatever the length of \<open>v\<close>.\<close>

definition py_slice_assign :: "'a list \<Rightarrow> int \<Rightarrow> int \<Rightarrow> 'a list \<Rightarrow> 'a list" where
  "py_slice_assign xs a b v =
     (let lo = py_bound (length xs) a; hi = py_bound (length xs) b
      in take lo xs @ v @ drop (max lo hi) xs)"

definition byte_size :: "char \<Rightarrow> nat option" where
  "byte_size c =
     (if c = CHR ''$'' then Some 3 else if c = CHR ''%'' then Some 2
      else if c = CHR ''!'' then Some 4 else if c = CHR ''#'' then Some 8 else None)"

definition upper :: "char \<Rightarrow> char" where
  "upper c =
     (if (97::nat) \<le> of_char c \<and> of_char c \<le> (122::nat) then char_of (of_char c - (32::nat)) else c)"

definition ord :: "char \<Rightarrow> int" where
  "ord c = int (of_char c)"

subsection \<open>The parts of vartypes and of the host that var.py relies on\<close>

text \<open>
  The host record holds what the source takes from outside the repository's files at hand:
  whether the Python runtime can allocate a payload of a given number of cells (the source
  turns OverflowError and MemoryError into error 7), and the conversion between numeric
  types, which is Microsoft Binary Format arithmetic.
\<close>

record host =
  can_alloc :: "nat \<Rightarrow> bool"
  num_conv :: "char \<Rightarrow> val \<Rightarrow> error + val"

definition is_sigil :: "char \<Rightarrow> bool" where
  "is_sigil c = (c = CHR ''$'' \<or> c = CHR ''%'' \<or> c = CHR ''!'' \<or> c = CHR ''#'')"

text \<open>
  Modelled from the spec: vartypes.complete_name is not among the source files. A name
  without a sigil is completed with the entry of the 26-slot DEFtype table for its leading
  letter; a name that ends in a sigil is returned as it is.
\<close>

definition complete_name :: "char list \<Rightarrow> string \<Rightarrow> error + string" where
  "complete_name deftype name =
     (if name \<noteq> [] \<and> \<not> is_sigil (last name)
      then (case py_index deftype (ord (upper (hd name)) - 65) of
              Inl e \<Rightarrow> Inl e
            | Inr c \<Rightarrow> Inr (name @ [c]))
      else Inr name)"

text \<open>
  Modelled from the spec: vartypes.pass_type_keep is not among the source files. Any
  conversion between a string and a number raises Type Mismatch (13), a value of the
  requested type is kept, and a number of another numeric type is converted.
\<close>

definition pass_type_keep :: "host \<Rightarrow> char \<Rightarrow> val \<Rightarrow> error + val" where
  "pass_type_keep h t v =
     (if t = CHR ''$'' then (if fst v = CHR ''$'' then Inr v else Inl (RunError 13))
      else if fst v = CHR ''$'' then Inl (RunError 13)
      else if fst v = t then Inr v
      else num_conv h t v)"

text \<open>Modelled from the spec: vartypes.pass_string_unpack, the payload of a string value.\<close>

definition pass_string_unpack :: "val \<Rightarrow> error + bytes" where
  "pass_string_unpack v = (if fst v = CHR ''$'' then Inr (snd v) else Inl (RunError 13))"

definition pack_string :: "bytes \<Rightarrow> val" where
  "pack_string s = (CHR ''$'', s)"

text \<open>
  Modelled from the spec: vartypes.null, the zero value of each type: the empty string,
  and as many zero bytes as the numeric type has.
\<close>

definition null :: "char \<Rightarrow> error + val" where
  "null c =
     (if c = CHR ''$'' then Inr (c, [])
      else (case byte_size c of None \<Rightarrow> Inl KeyError | Some n \<Rightarrow> Inr (c, replicate n 0)))"

text \<open>Modelled from the spec: vartypes.value_to_uint, an unsigned 16-bit little-endian pair.\<close>

definition value_to_uint :: "int \<Rightarrow> bytes" where
  "value_to_uint n = [nat (n mod 256), nat ((n div 256) mod 256)]"

subsection \<open>The module's state\<close>

text \<open>
  The dictionaries are association lists with distinct keys, in the order in which the
  dictionary is iterated; a new key is put at the end. The order of a Python 2 dictionary
  is not fixed by the source, and no result below depends on where a new key lands.
\<close>

datatype payload = ByteArr bytes | StrList "bytes list"

record vstate =
  variables :: "(string \<times> bytes) list"
  arrays :: "(string \<times> int list \<times> payload) list"
  array_base :: int
  deftype :: "char list"
  var_current :: int
  string_current :: int
  var_memory :: "(string \<times> int \<times> int \<times> int) list"
  array_current :: int
  array_memory :: "(string \<times> int \<times> int) list"

definition total_mem :: int where
  "total_mem = 60300"

definition var_mem_start :: int where
  "var_mem_start = 4720"

definition clear_variables :: vstate where
  "clear_variables =
     \<lparr> variables = [], arrays = [], array_base = 0, deftype = replicate 26 (CHR ''!''),
       var_current = var_mem_start, string_current = var_mem_start + total_mem,
       var_memory = [], array_current = 0, array_memory = [] \<rparr>"

subsection \<open>Scalars\<close>

text \<open>
  Every operation returns the state it leaves behind together with its result, because an
  error raised half-way leaves the assignments made before it in place.
\<close>

definition set_var_memory :: "vstate \<Rightarrow> string \<Rightarrow> char \<Rightarrow> nat \<Rightarrow> error option \<times> vstate" where
  "set_var_memory s name type_char unpacked_len =
     (case map_of (var_memory s) name of
        None \<Rightarrow>
          (case byte_size type_char of
             None \<Rightarrow> (Some KeyError, s)
           | Some bs \<Rightarrow>
               (let name_ptr = var_current s;
                    var_ptr = name_ptr + int (max 3 (length name)) + 1;
                    s1 = s\<lparr>var_current := var_current s + int (max 3 (length name)) + 1 + int bs\<rparr>
                in if type_char = CHR ''$''
                   then (let s2 = s1\<lparr>string_current := string_current s1 - int unpacked_len\<rparr>
                         in (None, s2\<lparr>var_memory := AList.update name
                                 (name_ptr, var_ptr, string_current s2 + 1) (var_memory s2)\<rparr>))
                   else (None, s1\<lparr>var_memory := AList.update name
                                 (name_ptr, var_ptr, - 1) (var_memory s1)\<rparr>)))
      | Some (name_ptr, var_ptr, str_ptr) \<Rightarrow>
          (if type_char = CHR ''$''
           then (let s2 = s\<lparr>string_current := string_current s - int unpacked_len\<rparr>
                 in (None, s2\<lparr>var_memory := AList.update name
                         (name_ptr, var_ptr, string_current s2 + 1) (var_memory s2)\<rparr>))
           else (None, s)))"

definition set_var :: "host \<Rightarrow> vstate \<Rightarrow> string \<Rightarrow> val \<Rightarrow> error option \<times> vstate" where
  "set_var h s name0 value =
     (case complete_name (deftype s) name0 of
        Inl e \<Rightarrow> (Some e, s)
      | Inr name \<Rightarrow>
     (case py_index name (- 1) of
        Inl e \<Rightarrow> (Some e, s)
      | Inr type_char \<Rightarrow>
          (if type_char = CHR ''$''
           then (case pass_string_unpack value of
                   Inl e \<Rightarrow> (Some e, s)
                 | Inr u \<Rightarrow>
                     (let unpacked = (if length u > 255 then take 255 u else u)
                      in set_var_memory (s\<lparr>variables := AList.update name unpacked (variables s)\<rparr>)
                           name type_char (length unpacked)))
           else (case pass_type_keep h type_char value of
                   Inl e \<Rightarrow> (Some e, s)
                 | Inr v \<Rightarrow>
                     set_var_memory (s\<lparr>variables := AList.update name (snd v) (variables s)\<rparr>)
                       name type_char 0))))"

text \<open>
  \<open>get_var\<close> assigns to nothing: the state it leaves behind is the state it was given.
\<close>

definition get_var :: "vstate \<Rightarrow> string \<Rightarrow> (error + val) \<times> vstate" where
  "get_var s name0 =
     (case complete_name (deftype s) name0 of
        Inl e \<Rightarrow> (Inl e, s)
      | Inr name \<Rightarrow>
     (case py_index name (- 1) of
        Inl e \<Rightarrow> (Inl e, s)
      | Inr type_char \<Rightarrow>
          (case map_of (variables s) name of
             None \<Rightarrow> (null type_char, s)
           | Some v \<Rightarrow>
               (if type_char = CHR ''$'' then (Inr (pack_string v), s)
                else (Inr (type_char, v), s)))))"

subsection \<open>Arrays\<close>

text \<open>
  \<open>index_array\<close>: the loop runs over the positions of \<open>index\<close> and reads
  \<open>dimensions\<close> at the same position, which raises when \<open>dimensions\<close> is shorter.
\<close>

fun index_array_loop :: "int \<Rightarrow> int list \<Rightarrow> int list \<Rightarrow> int \<Rightarrow> int \<Rightarrow> error + int" where
  "index_array_loop b [] ds bigindex area = Inr bigindex"
| "index_array_loop b (i # is) [] bigindex area = Inl IndexError"
| "index_array_loop b (i # is) (d # ds) bigindex area =
     index_array_loop b is ds (bigindex + area * (i - b)) (area * (d + 1 - b))"

definition index_array :: "vstate \<Rightarrow> int list \<Rightarrow> int list \<Rightarrow> error + int" where
  "index_array s index dimensions = index_array_loop (array_base s) index dimensions 0 1"

definition array_len :: "vstate \<Rightarrow> int list \<Rightarrow> error + int" where
  "array_len s dimensions =
     (case index_array s dimensions dimensions of Inl e \<Rightarrow> Inl e | Inr n \<Rightarrow> Inr (n + 1))"

definition var_size_bytes :: "string \<Rightarrow> error + nat" where
  "var_size_bytes name =
     (case py_index name (- 1) of
        Inl e \<Rightarrow> Inl e
      | Inr c \<Rightarrow> (case byte_size c of None \<Rightarrow> Inl (RunError 5) | Some n \<Rightarrow> Inr n))"

definition array_size_bytes :: "vstate \<Rightarrow> string \<Rightarrow> error + int" where
  "array_size_bytes s name =
     (case map_of (arrays s) name of
        None \<Rightarrow> Inr 0
      | Some (dimensions, lst) \<Rightarrow>
          (case array_len s dimensions of
             Inl e \<Rightarrow> Inl e
           | Inr sz \<Rightarrow>
               (case var_size_bytes name of Inl e \<Rightarrow> Inl e | Inr n \<Rightarrow> Inr (sz * int n))))"

fun check_dimensions :: "int \<Rightarrow> int list \<Rightarrow> error option" where
  "check_dimensions b [] = None"
| "check_dimensions b (d # ds) =
     (if d < 0 then Some (RunError 5)
      else if d < b then Some (RunError 9)
      else check_dimensions b ds)"

text \<open>
  The payload of a new array: as many empty strings as the array has cells, or as many zero
  bytes as its cells take. What the runtime cannot allocate is error 7.
\<close>

definition new_payload :: "host \<Rightarrow> string \<Rightarrow> int \<Rightarrow> error + payload" where
  "new_payload h name sz =
     (case py_index name (- 1) of
        Inl e \<Rightarrow> Inl e
      | Inr c \<Rightarrow>
          (if c = CHR ''$''
           then (if can_alloc h (nat sz) then Inr (StrList (replicate (nat sz) []))
                 else Inl (RunError 7))
           else (case var_size_bytes name of
                   Inl e \<Rightarrow> Inl e
                 | Inr n \<Rightarrow>
                     (if can_alloc h (nat sz * n) then Inr (ByteArr (replicate (nat sz * n) 0))
                      else Inl (RunError 7)))))"

definition dim_array :: "host \<Rightarrow> vstate \<Rightarrow> string \<Rightarrow> int list \<Rightarrow> error option \<times> vstate" where
  "dim_array h s name0 dimensions =
     (case complete_name (deftype s) name0 of
        Inl e \<Rightarrow> (Some e, s)
      | Inr name \<Rightarrow>
     (if map_of (arrays s) name \<noteq> None then (Some (RunError 10), s)
      else (case check_dimensions (array_base s) dimensions of
        Some e \<Rightarrow> (Some e, s)
      | None \<Rightarrow>
     (case array_len s dimensions of
        Inl e \<Rightarrow> (Some e, s)
      | Inr sz \<Rightarrow>
     (case new_payload h name sz of
        Inl e \<Rightarrow> (Some e, s)
      | Inr lst \<Rightarrow>
          (let s1 = s\<lparr>arrays := AList.update name (dimensions, lst) (arrays s)\<rparr>;
               name_ptr = array_current s1;
               record_len = 1 + int (max 3 (length name)) + 3 + 2 * int (length dimensions);
               array_ptr = name_ptr + record_len
           in (case array_size_bytes s1 name of
                 Inl e \<Rightarrow> (Some e, s1)
               | Inr n \<Rightarrow>
                   (None, s1\<lparr>array_current := array_current s1 + (record_len + n),
                              array_memory := AList.update name (name_ptr, array_ptr)
                                                (array_memory s1)\<rparr>))))))))"

fun check_index :: "int \<Rightarrow> int list \<Rightarrow> int list \<Rightarrow> error option" where
  "check_index b [] ds = None"
| "check_index b (i # is) [] = Some IndexError"
| "check_index b (i # is) (d # ds) =
     (if i < 0 then Some (RunError 5)
      else if i < b \<or> i > d then Some (RunError 9)
      else check_index b is ds)"

definition check_bounds ::
  "vstate \<Rightarrow> int list \<Rightarrow> int list \<Rightarrow> payload \<Rightarrow> (error + int list \<times> payload) \<times> vstate" where
  "check_bounds s index dimensions lst =
     (if length index \<noteq> length dimensions then (Inl (RunError 9), s)
      else (case check_index (array_base s) index dimensions of
              Some e \<Rightarrow> (Inl e, s)
            | None \<Rightarrow> (Inr (dimensions, lst), s)))"

definition check_dim_array ::
  "host \<Rightarrow> vstate \<Rightarrow> string \<Rightarrow> int list \<Rightarrow> (error + int list \<times> payload) \<times> vstate" where
  "check_dim_array h s name index =
     (case map_of (arrays s) name of
        Some (dimensions, lst) \<Rightarrow> check_bounds s index dimensions lst
      | None \<Rightarrow>
          (case dim_array h s name (replicate (length index) 10) of
             (Some e, s1) \<Rightarrow> (Inl e, s1)
           | (None, s1) \<Rightarrow>
               (case map_of (arrays s1) name of
                  None \<Rightarrow> (Inl KeyError, s1)
                | Some (dimensions, lst) \<Rightarrow> check_bounds s1 index dimensions lst)))"

definition base_array :: "vstate \<Rightarrow> int \<Rightarrow> error option \<times> vstate" where
  "base_array s base =
     (if base \<noteq> 1 \<and> base \<noteq> 0 then (Some (RunError 2), s)
      else if arrays s \<noteq> [] then (Some (RunError 10), s)
      else (None, s\<lparr>array_base := base\<rparr>))"

text \<open>
  \<open>dim_array\<close> is the only writer of \<open>arrays\<close> and picks the payload by the sigil, so a
  string name never meets a byte array nor a numeric name a list of strings; the model
  answers TypeError there.
\<close>

definition get_array :: "host \<Rightarrow> vstate \<Rightarrow> string \<Rightarrow> int list \<Rightarrow> (error + val) \<times> vstate" where
  "get_array h s name index =
     (case check_dim_array h s name index of
        (Inl e, s1) \<Rightarrow> (Inl e, s1)
      | (Inr (dimensions, lst), s1) \<Rightarrow>
     (case index_array s1 index dimensions of
        Inl e \<Rightarrow> (Inl e, s1)
      | Inr bigindex \<Rightarrow>
     (case py_index name (- 1) of
        Inl e \<Rightarrow> (Inl e, s1)
      | Inr c \<Rightarrow>
          (if c = CHR ''$''
           then (case lst of
                   StrList l \<Rightarrow>
                     (case py_index l bigindex of
                        Inl e \<Rightarrow> (Inl e, s1)
                      | Inr v \<Rightarrow> (Inr (c, v), s1))
                 | ByteArr b \<Rightarrow> (Inl TypeError, s1))
           else (case var_size_bytes name of
                   Inl e \<Rightarrow> (Inl e, s1)
                 | Inr n \<Rightarrow>
                     (case lst of
                        ByteArr b \<Rightarrow>
                          (Inr (c, py_slice b (bigindex * int n) ((bigindex + 1) * int n)), s1)
                      | StrList l \<Rightarrow> (Inl TypeError, s1)))))))"

definition store_payload :: "vstate \<Rightarrow> string \<Rightarrow> int list \<Rightarrow> payload \<Rightarrow> vstate" where
  "store_payload s name dimensions lst =
     s\<lparr>arrays := AList.update name (dimensions, lst) (arrays s)\<rparr>"

definition set_array ::
  "host \<Rightarrow> vstate \<Rightarrow> string \<Rightarrow> int list \<Rightarrow> val \<Rightarrow> error option \<times> vstate" where
  "set_array h s name index value =
     (case check_dim_array h s name index of
        (Inl e, s1) \<Rightarrow> (Some e, s1)
      | (Inr (dimensions, lst), s1) \<Rightarrow>
     (case index_array s1 index dimensions of
        Inl e \<Rightarrow> (Some e, s1)
      | Inr bigindex \<Rightarrow>
     (case py_index name (- 1) of
        Inl e \<Rightarrow> (Some e, s1)
      | Inr c \<Rightarrow>
     (case pass_type_keep h c value of
        Inl e \<Rightarrow> (Some e, s1)
      | Inr v \<Rightarrow>
          (if c = CHR ''$''
           then (case lst of
                   StrList l \<Rightarrow>
                     (case py_index l bigindex of
                        Inl e \<Rightarrow> (Some e, s1)
                      | Inr old \<Rightarrow>
                          (None, store_payload s1 name dimensions
                                   (StrList (l[nat (if bigindex < 0 then bigindex + int (length l)
                                                    else bigindex) := snd v]))))
                 | ByteArr b \<Rightarrow> (Some TypeError, s1))
           else (case var_size_bytes name of
                   Inl e \<Rightarrow> (Some e, s1)
                 | Inr n \<Rightarrow>
                     (case lst of
                        ByteArr b \<Rightarrow>
                          (None, store_payload s1 name dimensions
                                   (ByteArr (py_slice_assign b (bigindex * int n)
                                               ((bigindex + 1) * int n) (snd v))))
                      | StrList l \<Rightarrow> (Some TypeError, s1))))))))"

subsection \<open>The simulated memory read by PEEK\<close>

definition get_var_ptr :: "vstate \<Rightarrow> string \<Rightarrow> int list \<Rightarrow> error + int" where
  "get_var_ptr s name0 indices =
     (case complete_name (deftype s) name0 of
        Inl e \<Rightarrow> Inl e
      | Inr name \<Rightarrow>
          (if indices = []
           then (case map_of (var_memory s) name of
                   None \<Rightarrow> Inr (- 1)
                 | Some (name_ptr, var_ptr, str_ptr) \<Rightarrow> Inr var_ptr)
           else (case map_of (arrays s) name of
                   None \<Rightarrow> Inr (- 1)
                 | Some (dimensions, lst) \<Rightarrow>
                     (case map_of (array_memory s) name of
                        None \<Rightarrow> Inr (- 1)
                      | Some (name_ptr, array_ptr) \<Rightarrow>
                          (case var_size_bytes name of
                             Inl e \<Rightarrow> Inl e
                           | Inr n \<Rightarrow>
                               (case index_array s indices dimensions of
                                  Inl e \<Rightarrow> Inl e
                                | Inr k \<Rightarrow> Inr (var_current s + array_ptr + int n * k)))))))"

definition get_name_in_memory :: "string \<Rightarrow> int \<Rightarrow> error + int" where
  "get_name_in_memory name offset =
     (if offset = 0
      then (case py_index name (- 1) of
              Inl e \<Rightarrow> Inl e
            | Inr c \<Rightarrow> (case byte_size c of None \<Rightarrow> Inl KeyError | Some n \<Rightarrow> Inr (int n)))
      else if offset = 1
      then (case py_index name 0 of Inl e \<Rightarrow> Inl e | Inr c \<Rightarrow> Inr (ord (upper c)))
      else if offset = 2
      then (if length name > 2
            then (case py_index name 1 of Inl e \<Rightarrow> Inl e | Inr c \<Rightarrow> Inr (ord (upper c)))
            else Inr 0)
      else if offset = 3
      then (if length name > 3 then Inr (int (length name) - 3) else Inr 0)
      else (case py_index name (offset - 1) of
              Inl e \<Rightarrow> Inl e
            | Inr c \<Rightarrow> Inr (ord (upper c) - ord (CHR ''A'') + 0xC1)))"

text \<open>
  The search loops of \<open>get_var_memory\<close>. They keep the entry with the greatest pointer
  that does not exceed the address. After such a loop the source goes on with the loop
  variables \<open>name\<close> and \<open>name_ptr\<close>, which hold the entry iterated last, not the entry
  found; \<open>last\<close> below is that entry, read only when the dictionary is not empty.
\<close>

fun find_var ::
  "(string \<times> int \<times> int \<times> int) list \<Rightarrow> int \<Rightarrow> int \<times> int \<times> int \<times> string option
     \<Rightarrow> int \<times> int \<times> int \<times> string option" where
  "find_var [] address acc = acc"
| "find_var ((name, name_ptr, var_ptr, str_ptr) # rest) address (name_addr, var_addr, str_addr, the_var) =
     find_var rest address
       (if name_ptr \<le> address \<and> name_ptr > name_addr then (name_ptr, var_ptr, str_ptr, Some name)
        else (name_addr, var_addr, str_addr, the_var))"

fun find_str ::
  "(string \<times> int \<times> int \<times> int) list \<Rightarrow> int \<Rightarrow> int \<times> int \<times> int \<times> string option
     \<Rightarrow> int \<times> int \<times> int \<times> string option" where
  "find_str [] address acc = acc"
| "find_str ((name, name_ptr, var_ptr, str_ptr) # rest) address (name_addr, var_addr, str_addr, the_var) =
     find_str rest address
       (if str_ptr \<le> address \<and> str_ptr > str_addr then (name_ptr, var_ptr, str_ptr, Some name)
        else (name_addr, var_addr, str_addr, the_var))"

fun find_arr ::
  "(string \<times> int \<times> int) list \<Rightarrow> int \<Rightarrow> int \<times> int \<times> string option
     \<Rightarrow> int \<times> int \<times> string option" where
  "find_arr [] address acc = acc"
| "find_arr ((name, name_ptr, arr_ptr) # rest) address (name_addr, arr_addr, the_arr) =
     find_arr rest address
       (if name_ptr \<le> address \<and> name_ptr > name_addr then (name_ptr, arr_ptr, Some name)
        else (name_addr, arr_addr, the_arr))"

definition get_bytearray :: "vstate \<Rightarrow> string \<Rightarrow> error + payload" where
  "get_bytearray s name =
     (case py_index name (- 1) of
        Inl e \<Rightarrow> Inl e
      | Inr c \<Rightarrow>
          (if c = CHR ''$'' then Inl (RunError 13)
           else (case map_of (arrays s) name of
                   None \<Rightarrow> Inr (ByteArr [])
                 | Some (dimensions, lst) \<Rightarrow> Inr lst)))"

definition scalar_memory :: "vstate \<Rightarrow> int \<Rightarrow> error + int" where
  "scalar_memory s address =
     (case find_var (var_memory s) address (- 1, - 1, - 1, None) of
        (name_addr, var_addr, str_addr, None) \<Rightarrow> Inr (- 1)
      | (name_addr, var_addr, str_addr, Some the_var) \<Rightarrow>
     (case last (var_memory s) of (name, name_ptr, var_ptr, str_ptr) \<Rightarrow>
        (if address \<ge> var_addr
         then (case py_index name (- 1) of
                 Inl e \<Rightarrow> Inl e
               | Inr c \<Rightarrow>
            (case byte_size c of
                 None \<Rightarrow> Inl KeyError
               | Some bs \<Rightarrow>
            (if address - var_addr \<ge> int bs then Inr (- 1)
             else (case map_of (variables s) name of
                 None \<Rightarrow> Inl KeyError
               | Some v \<Rightarrow>
                   (if c = CHR ''$''
                    then (if length v \<ge> 256 then Inl ValueError
                          else (case py_index (length v # value_to_uint str_addr) (address - var_addr) of
                                  Inl e \<Rightarrow> Inl e
                                | Inr b \<Rightarrow> Inr (int b)))
                    else (case py_index v (address - var_addr) of
                            Inl e \<Rightarrow> Inl e
                          | Inr b \<Rightarrow> Inr (int b)))))))
         else get_name_in_memory name (address - name_ptr))))"

definition array_header :: "vstate \<Rightarrow> string \<Rightarrow> error + bytes" where
  "array_header s name =
     (case map_of (arrays s) name of
        None \<Rightarrow> Inl KeyError
      | Some (dimensions, lst) \<Rightarrow>
          (case array_size_bytes s name of
             Inl e \<Rightarrow> Inl e
           | Inr n \<Rightarrow>
               (if length dimensions \<ge> 256 then Inl ValueError
                else Inr (value_to_uint (n + 1 + 2 * int (length dimensions))
                          @ [length dimensions]
                          @ concat (map (\<lambda>d. value_to_uint (d + 1 - array_base s)) dimensions)))))"

definition array_payload_read :: "vstate \<Rightarrow> string \<Rightarrow> int \<Rightarrow> error + int" where
  "array_payload_read s name offset =
     (case array_size_bytes s name of
        Inl e \<Rightarrow> Inl e
      | Inr n \<Rightarrow>
          (if offset \<ge> n then Inr (- 1)
           else (case py_index name (- 1) of
                   Inl e \<Rightarrow> Inl e
                 | Inr c \<Rightarrow>
                     (if c = CHR ''$'' then Inr 0
                      else (case get_bytearray s name of
                              Inl e \<Rightarrow> Inl e
                            | Inr (StrList l) \<Rightarrow> Inl TypeError
                            | Inr (ByteArr b) \<Rightarrow>
                                (case py_index b offset of
                                   Inl e \<Rightarrow> Inl e
                                 | Inr x \<Rightarrow> Inr (int x)))))))"

definition array_record_read :: "vstate \<Rightarrow> string \<Rightarrow> int \<Rightarrow> error + int" where
  "array_record_read s name offset =
     (if offset < int (max 3 (length name)) + 1 then get_name_in_memory name offset
      else (case array_header s name of
              Inl e \<Rightarrow> Inl e
            | Inr data_rep \<Rightarrow>
                (case py_index data_rep (offset - (int (max 3 (length name)) + 1)) of
                   Inl e \<Rightarrow> Inl e
                 | Inr x \<Rightarrow> Inr (int x))))"

definition array_memory_read :: "vstate \<Rightarrow> int \<Rightarrow> error + int" where
  "array_memory_read s address =
     (case find_arr (array_memory s) address (- 1, - 1, None) of
        (name_addr, arr_addr, None) \<Rightarrow> Inr (- 1)
      | (name_addr, arr_addr, Some the_arr) \<Rightarrow>
          (case last (array_memory s) of (name, name_ptr, arr_ptr) \<Rightarrow>
             (if address \<ge> var_current s + arr_addr
              then array_payload_read s name (address - arr_addr - var_current s)
              else array_record_read s name (address - name_ptr - var_current s))))"

definition string_memory :: "vstate \<Rightarrow> int \<Rightarrow> error + int" where
  "string_memory s address =
     (case find_str (var_memory s) address (- 1, - 1, - 1, None) of
        (name_addr, var_addr, str_addr, None) \<Rightarrow> Inr (- 1)
      | (name_addr, var_addr, str_addr, Some the_var) \<Rightarrow>
     (case last (var_memory s) of (name, name_ptr, var_ptr, str_ptr) \<Rightarrow>
        (case map_of (variables s) name of
           None \<Rightarrow> Inl KeyError
         | Some v \<Rightarrow>
             (case py_index v (address - str_addr) of
                Inl e \<Rightarrow> Inl e
              | Inr b \<Rightarrow> Inr (int b)))))"

definition get_var_memory :: "vstate \<Rightarrow> int \<Rightarrow> error + int" where
  "get_var_memory s address =
     (if address < var_current s then scalar_memory s address
      else if address < var_current s + array_current s then array_memory_read s address
      else if address > string_current s then string_memory s address
      else Inr 0)"

section \<open>Keyboard buffer and modifier state (keyboard.py)\<close>

subsection \<open>Constants taken from modules outside the source files\<close>

text \<open>
  The scancode module is not among the source files; its constants are a parameter.
\<close>

record scancodes =
  ALT :: nat
  CTRL :: nat
  LSHIFT :: nat
  RSHIFT :: nat
  INSERT :: nat
  CAPSLOCK :: nat
  NUMLOCK :: nat
  SCROLOCK :: nat
  KP0 :: nat
  KP1 :: nat
  KP2 :: nat
  KP3 :: nat
  KP4 :: nat
  KP5 :: nat
  KP6 :: nat
  KP7 :: nat
  KP8 :: nat
  KP9 :: nat

text \<open>
  A dictionary display \<open>{k1: v1, k2: v2, ...}\<close> inserts its entries from left to right,
  so of two equal keys the one written later decides the value.
\<close>

definition dict_display :: "('k \<times> 'v) list \<Rightarrow> 'k \<Rightarrow> 'v option" where
  "dict_display entries = map_of (rev entries)"

definition TOGGLE :: "scancodes \<Rightarrow> nat \<Rightarrow> int option" where
  "TOGGLE sc = dict_display
     [(INSERT sc, 0x80), (CAPSLOCK sc, 0x40), (NUMLOCK sc, 0x20), (SCROLOCK sc, 0x10)]"

definition MODIFIER :: "scancodes \<Rightarrow> nat \<Rightarrow> int option" where
  "MODIFIER sc = dict_display
     [(ALT sc, 0x8), (CTRL sc, 0x4), (LSHIFT sc, 0x2), (RSHIFT sc, 0x1)]"

definition KEYPAD :: "scancodes \<Rightarrow> nat \<Rightarrow> string option" where
  "KEYPAD sc = dict_display
     [(KP0 sc, ''0''), (KP1 sc, ''1''), (KP2 sc, ''2''), (KP3 sc, ''3''), (KP4 sc, ''4''),
      (KP5 sc, ''5''), (KP6 sc, ''6''), (KP7 sc, ''7''), (KP8 sc, ''8''), (KP9 sc, ''9'')]"

text \<open>
  The eascii module is not among the source files either; \<open>ea\<close> is the list of the codes
  \<open>ea.F1\<close>, ..., \<open>ea.F12\<close> in this order.
\<close>

definition FUNCTION_KEY :: "string list \<Rightarrow> string \<Rightarrow> nat option" where
  "FUNCTION_KEY ea = dict_display (zip ea [0 ..< 12])"

text \<open>\<open>d[k]\<close> for a key \<open>k\<close> that the display of \<open>d\<close> itself writes: it is always found.\<close>

definition subscript :: "('k \<Rightarrow> int option) \<Rightarrow> 'k \<Rightarrow> int" where
  "subscript d k = (case d k of Some v \<Rightarrow> v | None \<Rightarrow> 0)"

text \<open>\<open>d.get(k, 0)\<close>.\<close>

definition get0 :: "('k \<Rightarrow> int option) \<Rightarrow> 'k \<Rightarrow> int" where
  "get0 d k = (case d k of Some v \<Rightarrow> v | None \<Rightarrow> 0)"

subsection \<open>KeyboardBuffer\<close>

text \<open>
  A keystroke is a byte string of one or two characters. \<open>tones\<close> counts the
  full-buffer tones put on the audio queue.
\<close>

record kbuffer =
  buffer :: "(string \<times> nat option \<times> int option) list"
  ring_length :: nat
  start :: nat
  expansion_vessel :: "string list"
  key_replace :: "string list"
  tones :: nat

definition default_macros :: "string list" where
  "default_macros =
     [''LIST '', ''RUN'' @ [CHR 13], ''LOAD\"'', ''SAVE\"'', ''CONT'' @ [CHR 13],
      '',\"LPT1:\"'' @ [CHR 13], ''TRON'' @ [CHR 13], ''TROFF'' @ [CHR 13], ''KEY '',
      ''SCREEN 0,0,0'' @ [CHR 13], [], [] ]"

definition init_buffer :: "nat \<Rightarrow> kbuffer" where
  "init_buffer n =
     \<lparr> buffer = [], ring_length = n, start = 0, expansion_vessel = [],
       key_replace = default_macros, tones = 0 \<rparr>"

definition append :: "kbuffer \<Rightarrow> string \<Rightarrow> nat option \<Rightarrow> int option \<Rightarrow> bool \<Rightarrow> kbuffer" where
  "append k cp_c scan modifier check_full =
     (if cp_c \<noteq> []
      then (if check_full \<and> length (buffer k) \<ge> ring_length k then k\<lparr>tones := tones k + 1\<rparr>
            else k\<lparr>buffer := buffer k @ [(cp_c, scan, modifier)]\<rparr>)
      else k)"

text \<open>
  \<open>getc\<close>. \<open>list(macro)\<close> splits the macro text into its one-character strings. The
  remainder by a ring length of zero and the subscript of \<open>key_replace\<close> raise in Python.
\<close>

definition getc :: "string list \<Rightarrow> kbuffer \<Rightarrow> bool \<Rightarrow> (error + string) \<times> kbuffer" where
  "getc ea k expand =
     (case expansion_vessel k of
        v # vs \<Rightarrow> (Inr v, k\<lparr>expansion_vessel := vs\<rparr>)
      | [] \<Rightarrow>
          (let c = (case buffer k of [] \<Rightarrow> [] | e # rest \<Rightarrow> fst e);
               k1 = k\<lparr>buffer := tl (buffer k)\<rparr>
           in if c \<noteq> [] \<and> ring_length k1 = 0 then (Inl ZeroDivisionError, k1)
              else
                (let k2 = (if c \<noteq> [] then k1\<lparr>start := (start k1 + 1) mod ring_length k1\<rparr>
                           else k1)
                 in if \<not> expand then (Inr c, k2)
                    else (case FUNCTION_KEY ea c of
                            None \<Rightarrow> (Inr c, k2)
                          | Some n \<Rightarrow>
                              (case py_index (key_replace k2) (int n) of
                                 Inl e \<Rightarrow> (Inl e, k2)
                               | Inr macro \<Rightarrow>
                                   (case map (\<lambda>x. [x]) macro of
                                      [] \<Rightarrow> (Inr c, k2\<lparr>expansion_vessel := []\<rparr>)
                                    | v # vs \<Rightarrow> (Inr v, k2\<lparr>expansion_vessel := vs\<rparr>)))))))"

definition peek :: "kbuffer \<Rightarrow> string" where
  "peek k = (case buffer k of [] \<Rightarrow> [] | e # rest \<Rightarrow> fst e)"

subsection \<open>Keyboard\<close>

text \<open>
  The key event carries a unicode string; how it is turned into code page bytes
  (\<open>codepage.from_unicode\<close>) and how Python swaps its case are parameters.
\<close>

record 'u codepage =
  from_unicode :: "'u list \<Rightarrow> string"
  swapcase :: "'u list \<Rightarrow> 'u list"

text \<open>The field \<open>kmod\<close> is the source's \<open>self.mod\<close>.\<close>

record keyboard =
  buf :: kbuffer
  last_scancode :: nat
  kmod :: int
  keypad_ascii :: string
  ignore_caps :: bool

definition nonsticky_mask :: "scancodes \<Rightarrow> int" where
  "nonsticky_mask sc =
     subscript (MODIFIER sc) (CTRL sc) OR subscript (MODIFIER sc) (ALT sc)
       OR subscript (MODIFIER sc) (LSHIFT sc) OR subscript (MODIFIER sc) (RSHIFT sc)"

fun or_modifiers :: "scancodes \<Rightarrow> nat list \<Rightarrow> int \<Rightarrow> int" where
  "or_modifiers sc [] m = m"
| "or_modifiers sc (x # xs) m = or_modifiers sc xs (m OR get0 (MODIFIER sc) x)"

definition xor_toggle :: "scancodes \<Rightarrow> nat option \<Rightarrow> int \<Rightarrow> int" where
  "xor_toggle sc scan m =
     (case scan of
        None \<Rightarrow> m
      | Some x \<Rightarrow> (case TOGGLE sc x of None \<Rightarrow> m | Some t \<Rightarrow> m XOR t))"

definition key_down ::
  "scancodes \<Rightarrow> 'u codepage \<Rightarrow> keyboard \<Rightarrow> 'u list \<Rightarrow> nat option \<Rightarrow> nat list \<Rightarrow> bool \<Rightarrow> keyboard" where
  "key_down sc cp kb c scan mods check_full =
     (let kb1 = (case scan of None \<Rightarrow> kb | Some x \<Rightarrow> kb\<lparr>last_scancode := x\<rparr>);
          kb2 = kb1\<lparr>kmod := kmod kb1 AND NOT (nonsticky_mask sc)\<rparr>;
          kb3 = kb2\<lparr>kmod := or_modifiers sc mods (kmod kb2)\<rparr>;
          kb4 = kb3\<lparr>kmod := xor_toggle sc scan (kmod kb3)\<rparr>;
          digit = (if ALT sc \<in> set mods
                   then (case scan of None \<Rightarrow> None | Some x \<Rightarrow> KEYPAD sc x)
                   else None)
      in case digit of
           Some d \<Rightarrow> kb4\<lparr>keypad_ascii := keypad_ascii kb4 @ d\<rparr>
         | None \<Rightarrow>
             (let c1 = (if (kmod kb4 AND subscript (TOGGLE sc) (CAPSLOCK sc)) \<noteq> 0
                           \<and> \<not> ignore_caps kb4 \<and> length c = 1
                        then swapcase cp c else c)
              in kb4\<lparr>buf := append (buf kb4) (from_unicode cp c1) scan (Some (kmod kb4)) check_full\<rparr>))"

text \<open>
  Instances of the parameters: the scancodes of the IBM PC/XT keyboard, a code page that
  passes characters through, and the keyboard as \<open>Keyboard.__init__\<close> leaves it when
  the key string is empty.
\<close>

definition xt_scancodes :: scancodes where
  "xt_scancodes =
     \<lparr> ALT = 0x38, CTRL = 0x1D, LSHIFT = 0x2A, RSHIFT = 0x36, INSERT = 0x52, CAPSLOCK = 0x3A,
       NUMLOCK = 0x45, SCROLOCK = 0x46, KP0 = 0x52, KP1 = 0x4F, KP2 = 0x50, KP3 = 0x51,
       KP4 = 0x4B, KP5 = 0x4C, KP6 = 0x4D, KP7 = 0x47, KP8 = 0x48, KP9 = 0x49 \<rparr>"

definition plain_codepage :: "char codepage" where
  "plain_codepage = \<lparr> from_unicode = (\<lambda>c. c), swapcase = (\<lambda>c. c) \<rparr>"

definition init_keyboard :: keyboard where
  "init_keyboard =
     \<lparr> buf = init_buffer 15, last_scancode = 0, kmod = 0, keypad_ascii = [], ignore_caps = False \<rparr>"

section \<open>Notions used to state the properties\<close>

subsection \<open>Arrays: cells, in-range indices and runs of writes\<close>

text \<open>
  The closed form of \<open>index_array\<close>, as the spec gives it: the sum of
  \<open>area_i * (idx_i - base)\<close> with \<open>area_0 = 1\<close> and
  \<open>area_(i+1) = area_i * (dim_i + 1 - base)\<close>.
\<close>

fun linear :: "int \<Rightarrow> int list \<Rightarrow> int list \<Rightarrow> int" where
  "linear b (i # is) (d # ds) = (i - b) + (d + 1 - b) * linear b is ds"
| "linear b is ds = 0"

text \<open>
  An index tuple is in range when it has as many components as the array has dimensions
  and each lies between the array base and the maximum index of its axis.
\<close>

definition in_range :: "int \<Rightarrow> int list \<Rightarrow> int list \<Rightarrow> bool" where
  "in_range b index dimensions = list_all2 (\<lambda>i d. b \<le> i \<and> i \<le> d) index dimensions"

text \<open>The number of cells of an array: the product of the extents of its axes.\<close>

definition cells :: "int \<Rightarrow> int list \<Rightarrow> nat" where
  "cells b dimensions = nat (prod_list (map (\<lambda>d. d + 1 - b) dimensions))"

text \<open>
  The shape of a stored array: its payload is of the kind its sigil asks for and has one
  cell, or one group of bytes, for every cell of the array.
\<close>

definition array_ok :: "vstate \<Rightarrow> string \<Rightarrow> int list \<Rightarrow> bool" where
  "array_ok s name dimensions =
     (case map_of (arrays s) name of
        None \<Rightarrow> False
      | Some (ds, lst) \<Rightarrow>
          ds = dimensions \<and>
          (case lst of
             StrList l \<Rightarrow> last name = CHR ''$'' \<and> length l = cells (array_base s) dimensions
           | ByteArr b \<Rightarrow>
               last name \<noteq> CHR ''$'' \<and>
               (case byte_size (last name) of
                  None \<Rightarrow> False
                | Some n \<Rightarrow> length b = cells (array_base s) dimensions * n)))"

text \<open>A run of \<open>set_array\<close> calls on one array, in the order of the list.\<close>

fun set_arrays :: "host \<Rightarrow> vstate \<Rightarrow> string \<Rightarrow> (int list \<times> val) list \<Rightarrow> vstate" where
  "set_arrays h s name [] = s"
| "set_arrays h s name ((index, value) # ws) =
     set_arrays h (snd (set_array h s name index value)) name ws"

text \<open>
  What the spec calls the bytes most recently written to a cell: the payload, after the
  coercion that \<open>set_array\<close> applies, of the last write of the run that names the cell.
\<close>

fun last_written :: "host \<Rightarrow> char \<Rightarrow> int list \<Rightarrow> (int list \<times> val) list \<Rightarrow> bytes option" where
  "last_written h c index [] = None"
| "last_written h c index ((i, value) # ws) =
     (case last_written h c index ws of
        Some b \<Rightarrow> Some b
      | None \<Rightarrow>
          (if i = index
           then (case pass_type_keep h c value of Inr v \<Rightarrow> Some (snd v) | Inl e \<Rightarrow> None)
           else None))"

text \<open>
  A value can be written to an array of sigil \<open>c\<close> when its coercion succeeds and,
  for a numeric array, gives as many bytes as the type has.
\<close>

definition writable :: "host \<Rightarrow> char \<Rightarrow> val \<Rightarrow> bool" where
  "writable h c value =
     (case pass_type_keep h c value of
        Inl e \<Rightarrow> False
      | Inr v \<Rightarrow> c = CHR ''$'' \<or> byte_size c = Some (length (snd v)))"

text \<open>The payload that \<open>dim_array\<close> allocates for an array of \<open>n\<close> cells.\<close>

definition fresh_payload :: "string \<Rightarrow> nat \<Rightarrow> payload" where
  "fresh_payload name n =
     (if last name = CHR ''$'' then StrList (replicate n [])
      else (case byte_size (last name) of
              None \<Rightarrow> ByteArr []
            | Some k \<Rightarrow> ByteArr (replicate (n * k) 0)))"

text \<open>
  An instance of the host: every allocation succeeds and every numeric conversion
  overflows.
\<close>

definition roomy_host :: host where
  "roomy_host = \<lparr> can_alloc = (\<lambda>n. True), num_conv = (\<lambda>t v. Inl (RunError 6)) \<rparr>"

section \<open>Statement parser (statements.py)\<close>

subsection \<open>The token stream\<close>

text \<open>
  Modelled from the spec: the token stream reader (the objects \<open>ins\<close> of the source) and
  the token table \<open>tk\<close> are not among the source files. The stream is modelled after
  tokenisation: a keyword token is one symbol, named as in the table (\<open>tk.END\<close> is
  \<open>Tok ''END''\<close>), and every other byte is a character. The reader skips blanks, peeks,
  reads and requires symbols. A statement ends where the stream ends, at the zero byte that
  closes a line, or at a colon.
\<close>

datatype sym = Tok string | Chr char

type_synonym ins = "sym list"

definition STX :: error where
  "STX = RunError 2"

definition IFC :: error where
  "IFC = RunError 5"

definition TYPE_MISMATCH :: error where
  "TYPE_MISMATCH = RunError 13"

definition blank :: "sym \<Rightarrow> bool" where
  "blank x = (x = Chr (CHR '' '') \<or> x = Chr (CHR 0x09) \<or> x = Chr (CHR 0x0A))"

text \<open>\<open>ins.skip_blank()\<close> moves to the first symbol that is not blank, which it returns.\<close>

definition skip_blank :: "ins \<Rightarrow> ins" where
  "skip_blank = dropWhile blank"

text \<open>\<open>tk.END_STATEMENT\<close>, but for the empty string that stands for the end of the stream.\<close>

definition END_STATEMENT :: "sym list" where
  "END_STATEMENT = [Chr (CHR 0x00), Chr (CHR '':'')]"

definition require_end :: "ins \<Rightarrow> error option \<times> ins" where
  "require_end i =
     (case skip_blank i of
        [] \<Rightarrow> (None, [])
      | x # xs \<Rightarrow> (if x \<in> set END_STATEMENT then (None, x # xs) else (Some STX, x # xs)))"

definition require_read :: "sym list \<Rightarrow> ins \<Rightarrow> (error + sym) \<times> ins" where
  "require_read rng i =
     (case skip_blank i of
        [] \<Rightarrow> (Inl STX, [])
      | x # xs \<Rightarrow> (if x \<in> set rng then (Inr x, xs) else (Inl STX, xs)))"

definition skip_blank_read_if :: "sym list \<Rightarrow> ins \<Rightarrow> sym option \<times> ins" where
  "skip_blank_read_if rng i =
     (case skip_blank i of
        [] \<Rightarrow> (None, [])
      | x # xs \<Rightarrow> (if x \<in> set rng then (Some x, xs) else (None, x # xs)))"

definition read_keyword_token :: "ins \<Rightarrow> sym option \<times> ins" where
  "read_keyword_token i = (case i of [] \<Rightarrow> (None, []) | x # xs \<Rightarrow> (Some x, xs))"

text \<open>
  \<open>c in string.ascii_letters\<close> is a substring test: it holds of a letter and of the
  empty string that the reader returns at the end of the stream.
\<close>

definition in_ascii_letters :: "sym option \<Rightarrow> bool" where
  "in_ascii_letters c =
     (case c of
        None \<Rightarrow> True
      | Some (Tok t) \<Rightarrow> False
      | Some (Chr x) \<Rightarrow>
          (65 \<le> (of_char x :: nat) \<and> (of_char x :: nat) \<le> 90)
          \<or> (97 \<le> (of_char x :: nat) \<and> (of_char x :: nat) \<le> 122))"

subsection \<open>Collaborators\<close>

text \<open>
  A configuration is the stream together with the session. What the parser calls but does
  not define is a parameter: the callbacks of the session, named as the source names them,
  the expression parser, the flag \<open>session.redo_on_break\<close>, the reader of names, the
  DEFtype table of the session's memory, whether the first byte of a symbol is
  \<open>0xFE\<close> or \<open>0xFF\<close>, and the methods of the parser that are not modelled here.
\<close>

datatype arg = Num int | Val val | Name string | Sym sym | Nothing

type_synonym 's conf = "ins \<times> 's"

record 's collab =
  call :: "string \<Rightarrow> arg list \<Rightarrow> 's conf \<Rightarrow> error option \<times> 's conf"
  parse :: "'s conf \<Rightarrow> (error + val) \<times> 's conf"
  set_redo_on_break :: "bool \<Rightarrow> 's \<Rightarrow> 's"
  read_name :: "ins \<Rightarrow> string \<times> ins"
  session_deftype :: "'s \<Rightarrow> char list"
  lead_fe_ff :: "sym \<Rightarrow> bool"
  unmodelled :: "string \<Rightarrow> arg list \<Rightarrow> 's conf \<Rightarrow> error option \<times> 's conf"

text \<open>Sequencing: an error ends the statement and keeps the configuration reached.\<close>

definition andthen ::
  "(error + 'a) \<times> 'c \<Rightarrow> ('a \<Rightarrow> 'c \<Rightarrow> error option \<times> 'c) \<Rightarrow> error option \<times> 'c" where
  "andthen r f = (case r of (Inl e, c) \<Rightarrow> (Some e, c) | (Inr x, c) \<Rightarrow> f x c)"

definition andthen_val ::
  "(error + 'a) \<times> 'c \<Rightarrow> ('a \<Rightarrow> 'c \<Rightarrow> (error + 'b) \<times> 'c) \<Rightarrow> (error + 'b) \<times> 'c" where
  "andthen_val r f = (case r of (Inl e, c) \<Rightarrow> (Inl e, c) | (Inr x, c) \<Rightarrow> f x c)"

definition next_do ::
  "error option \<times> 'c \<Rightarrow> ('c \<Rightarrow> error option \<times> 'c) \<Rightarrow> error option \<times> 'c" where
  "next_do r f = (case r of (Some e, c) \<Rightarrow> (Some e, c) | (None, c) \<Rightarrow> f c)"

text \<open>A reader operation acts on the stream of the configuration.\<close>

definition on_ins :: "(ins \<Rightarrow> 'r \<times> ins) \<Rightarrow> 's conf \<Rightarrow> 'r \<times> 's conf" where
  "on_ins f c = (case c of (i, \<sigma>) \<Rightarrow> (case f i of (r, i') \<Rightarrow> (r, (i', \<sigma>))))"

text \<open>
  Modelled from the spec: \<open>values.to_type\<close> coerces as \<open>pass_type_keep\<close> does (a string
  for a number or a number for a string is Type Mismatch), \<open>values.to_int\<close> coerces to
  the 16-bit signed integer and returns its value, and \<open>error.range_check\<close> raises
  Illegal Function Call outside the bounds.
\<close>

definition to_type :: "host \<Rightarrow> char \<Rightarrow> val \<Rightarrow> error + val" where
  "to_type h sigil v = pass_type_keep h sigil v"

definition int16 :: "bytes \<Rightarrow> int" where
  "int16 b =
     (let n = int (foldr (\<lambda>x acc. x + 256 * acc) b 0)
      in if n \<ge> 32768 then n - 65536 else n)"

definition to_int :: "host \<Rightarrow> val \<Rightarrow> error + int" where
  "to_int h v = (case pass_type_keep h (CHR ''%'') v of Inl e \<Rightarrow> Inl e | Inr w \<Rightarrow> Inr (int16 (snd w)))"

definition range_check :: "int \<Rightarrow> int \<Rightarrow> int \<Rightarrow> error + unit" where
  "range_check lo hi x = (if x < lo \<or> hi < x then Inl IFC else Inr ())"

subsection \<open>Helpers of the parser\<close>

definition parse_name :: "'s collab \<Rightarrow> 's conf \<Rightarrow> (error + string) \<times> 's conf" where
  "parse_name col c =
     (case c of (i, \<sigma>) \<Rightarrow>
        (case read_name col i of (name, i1) \<Rightarrow>
           (if name = [] then (Inl STX, (i1, \<sigma>))
            else (complete_name (session_deftype col \<sigma>) name, (i1, \<sigma>)))))"

text \<open>\<open>parse_expression\<close>, as its callers below use it, with \<open>allow_empty\<close> false.\<close>

definition parse_expression :: "'s collab \<Rightarrow> 's conf \<Rightarrow> (error + val) \<times> 's conf" where
  "parse_expression col c =
     (case c of (i, \<sigma>) \<Rightarrow>
        (case parse col (i, set_redo_on_break col True \<sigma>) of
           (Inl e, c1) \<Rightarrow> (Inl e, c1)
         | (Inr v, (i1, \<sigma>1)) \<Rightarrow> (Inr v, (i1, set_redo_on_break col False \<sigma>1))))"

text \<open>
  A line number pointer is the symbol \<open>T_UINT\<close> followed by its two bytes, which the
  model expects as characters; fewer than two is the truncated bytecode that the source
  asserts against.
\<close>

definition parse_jumpnum :: "ins \<Rightarrow> (error + int) \<times> ins" where
  "parse_jumpnum i =
     (case require_read [Tok ''T_UINT''] i of
        (Inl e, i1) \<Rightarrow> (Inl e, i1)
      | (Inr t, i1) \<Rightarrow>
          (case take 2 i1 of
             [Chr lo, Chr hi] \<Rightarrow> (Inr (int (of_char lo) + 256 * int (of_char hi)), drop 2 i1)
           | token \<Rightarrow> (Inl AssertionError, drop 2 i1)))"

definition parse_optional_jumpnum :: "ins \<Rightarrow> int \<Rightarrow> (error + int) \<times> ins" where
  "parse_optional_jumpnum i missing_value =
     (case skip_blank i of
        [] \<Rightarrow> (Inr missing_value, [])
      | x # xs \<Rightarrow>
          (if x \<noteq> Tok ''T_UINT'' then (Inr missing_value, x # xs) else parse_jumpnum (x # xs)))"

subsection \<open>The table of statements\<close>

text \<open>
  The dictionary \<open>self.statements\<close> as data: each entry tells which generalised caller
  or which method of the parser handles the statement, and with which callback. The
  argument \<open>dialect\<close> is the source's \<open>self.syntax\<close>.
\<close>

datatype handler =
    Exec_after_end string
  | Exec_immediate string
  | Exec_args_iter string string
  | Exec_single_string_arg string
  | Exec_files_shell string
  | Exec_deftype char
  | Method string

definition statement_table :: "(sym \<times> handler) list" where
  "statement_table =
     [(Tok ''END'', Exec_after_end ''session.end_''),
      (Tok ''FOR'', Method ''exec_for''),
      (Tok ''NEXT'', Method ''exec_next''),
      (Tok ''DATA'', Method ''skip_statement''),
      (Tok ''INPUT'', Method ''exec_input''),
      (Tok ''DIM'', Method ''exec_dim''),
      (Tok ''READ'', Method ''exec_read''),
      (Tok ''LET'', Exec_args_iter ''_parse_let_args_iter'' ''session.memory.let_''),
      (Tok ''GOTO'', Exec_args_iter ''_parse_single_line_number_iter'' ''session.interpreter.goto_''),
      (Tok ''RUN'', Exec_args_iter ''_parse_run_args_iter'' ''session.run_''),
      (Tok ''IF'', Method ''exec_if''),
      (Tok ''RESTORE'', Method ''exec_restore''),
      (Tok ''GOSUB'', Exec_args_iter ''_parse_single_line_number_iter'' ''session.interpreter.gosub_''),
      (Tok ''RETURN'', Exec_args_iter ''_parse_optional_line_number_iter'' ''session.interpreter.return_''),
      (Tok ''REM'', Method ''skip_line''),
      (Tok ''STOP'', Exec_after_end ''session.interpreter.stop_''),
      (Tok ''PRINT'', Exec_args_iter ''_parse_print_args_iter(parse_file=True)'' ''session.files.print_''),
      (Tok ''CLEAR'', Exec_args_iter ''_parse_clear_args_iter'' ''session.clear_''),
      (Tok ''LIST'', Exec_args_iter ''_parse_list_args_iter'' ''session.list_''),
      (Tok ''NEW'', Exec_after_end ''session.new_''),
      (Tok ''ON'', Method ''exec_on''),
      (Tok ''WAIT'', Exec_args_iter ''_parse_wait_args_iter'' ''session.machine.wait_''),
      (Tok ''DEF'', Method ''exec_def''),
      (Tok ''POKE'', Exec_args_iter ''_parse_poke_out_args_iter'' ''session.all_memory.poke_''),
      (Tok ''CONT'', Exec_immediate ''session.interpreter.cont_''),
      (Tok ''OUT'', Exec_args_iter ''_parse_poke_out_args_iter'' ''session.machine.out_''),
      (Tok ''LPRINT'', Exec_args_iter ''_parse_print_args_iter(parse_file=False)'' ''session.devices.lprint_''),
      (Tok ''LLIST'', Exec_args_iter ''_parse_delete_llist_args_iter'' ''session.llist_''),
      (Tok ''WIDTH'', Exec_args_iter ''_parse_width_args_iter'' ''session.files.width_''),
      (Tok ''ELSE'', Method ''skip_line''),
      (Tok ''TRON'', Exec_immediate ''session.interpreter.tron_''),
      (Tok ''TROFF'', Exec_immediate ''session.interpreter.troff_''),
      (Tok ''SWAP'', Method ''exec_swap''),
      (Tok ''ERASE'', Method ''exec_erase''),
      (Tok ''EDIT'', Exec_args_iter ''_parse_edit_args_iter'' ''session.edit_''),
      (Tok ''ERROR'', Exec_args_iter ''_parse_single_arg_iter'' ''session.error_''),
      (Tok ''RESUME'', Exec_args_iter ''_parse_resume_args_iter'' ''session.interpreter.resume_''),
      (Tok ''DELETE'', Exec_args_iter ''_parse_delete_llist_args_iter'' ''session.delete_''),
      (Tok ''AUTO'', Exec_args_iter ''_parse_auto_args_iter'' ''session.auto_''),
      (Tok ''RENUM'', Exec_args_iter ''_parse_renum_args_iter'' ''session.renum_''),
      (Tok ''DEFSTR'', Exec_deftype (CHR ''$'')),
      (Tok ''DEFINT'', Exec_deftype (CHR ''%'')),
      (Tok ''DEFSNG'', Exec_deftype (CHR ''!'')),
      (Tok ''DEFDBL'', Exec_deftype (CHR ''#'')),
      (Tok ''LINE'', Method ''exec_line''),
      (Tok ''WHILE'', Exec_immediate ''session.interpreter.while_''),
      (Tok ''WEND'', Exec_after_end ''session.interpreter.wend_''),
      (Tok ''CALL'', Exec_args_iter ''_parse_call_args_iter'' ''session.all_memory.call_''),
      (Tok ''CALLS'', Exec_args_iter ''_parse_call_args_iter'' ''session.all_memory.call_''),
      (Tok ''WRITE'', Exec_args_iter ''_parse_write_args_iter'' ''session.files.write_''),
      (Tok ''OPTION'', Method ''exec_option''),
      (Tok ''RANDOMIZE'', Exec_args_iter ''_parse_optional_arg_iter'' ''session.randomize_''),
      (Tok ''OPEN'', Method ''exec_open''),
      (Tok ''CLOSE'', Method ''exec_close''),
      (Tok ''LOAD'', Exec_args_iter ''_parse_load_args_iter'' ''session.load_''),
      (Tok ''MERGE'', Exec_single_string_arg ''session.merge_''),
      (Tok ''SAVE'', Exec_args_iter ''_parse_save_args_iter'' ''session.save_''),
      (Tok ''COLOR'', Method ''exec_color''),
      (Tok ''CLS'', Method ''exec_cls''),
      (Tok ''MOTOR'', Exec_args_iter ''_parse_optional_arg_iter'' ''session.devices.motor_''),
      (Tok ''BSAVE'', Exec_args_iter ''_parse_bsave_args_iter'' ''session.all_memory.bsave_''),
      (Tok ''BLOAD'', Exec_args_iter ''_parse_bload_args_iter'' ''session.all_memory.bload_''),
      (Tok ''SOUND'', Exec_args_iter ''_parse_sound_args_iter'' ''session.sound.sound_''),
      (Tok ''BEEP'', Exec_args_iter ''_parse_beep_args_iter'' ''session.sound.beep_''),
      (Tok ''PSET'', Method ''exec_pset''),
      (Tok ''PRESET'', Method ''exec_preset''),
      (Tok ''SCREEN'', Method ''exec_screen''),
      (Tok ''KEY'', Method ''exec_key''),
      (Tok ''LOCATE'', Method ''exec_locate''),
      (Tok ''FILES'', Exec_files_shell ''session.devices.files_''),
      (Tok ''FIELD'', Method ''exec_field''),
      (Tok ''SYSTEM'', Exec_after_end ''session.interpreter.system_''),
      (Tok ''NAME'', Exec_args_iter ''_parse_name_args_iter'' ''session.devices.name_''),
      (Tok ''LSET'', Method ''exec_lset''),
      (Tok ''RSET'', Method ''exec_rset''),
      (Tok ''KILL'', Exec_single_string_arg ''session.devices.kill_''),
      (Tok ''PUT'', Method ''exec_put''),
      (Tok ''GET'', Method ''exec_get''),
      (Tok ''RESET'', Exec_immediate ''session.files.reset_''),
      (Tok ''COMMON'', Method ''exec_common''),
      (Tok ''CHAIN'', Method ''exec_chain''),
      (Tok ''DATE'', Exec_args_iter ''_parse_time_date_args_iter'' ''session.clock.date_''),
      (Tok ''TIME'', Exec_args_iter ''_parse_time_date_args_iter'' ''session.clock.time_''),
      (Tok ''PAINT'', Method ''exec_paint''),
      (Tok ''COM'', Exec_args_iter ''_parse_com_command_iter'' ''session.events.com_''),
      (Tok ''CIRCLE'', Method ''exec_circle''),
      (Tok ''DRAW'', Method ''exec_draw''),
      (Tok ''PLAY'', Method ''exec_play''),
      (Tok ''TIMER'', Exec_args_iter ''_parse_event_command_iter'' ''session.events.timer_''),
      (Tok ''IOCTL'', Method ''exec_ioctl''),
      (Tok ''CHDIR'', Exec_single_string_arg ''session.devices.chdir_''),
      (Tok ''MKDIR'', Exec_single_string_arg ''session.devices.mkdir_''),
      (Tok ''RMDIR'', Exec_single_string_arg ''session.devices.rmdir_''),
      (Tok ''SHELL'', Exec_files_shell ''session.shell_''),
      (Tok ''ENVIRON'', Exec_single_string_arg ''dos.environ_statement_''),
      (Tok ''VIEW'', Method ''exec_view''),
      (Tok ''WINDOW'', Method ''exec_window''),
      (Tok ''PALETTE'', Method ''exec_palette''),
      (Tok ''LCOPY'', Exec_args_iter ''_parse_optional_arg_iter'' ''session.devices.lcopy_''),
      (Tok ''PCOPY'', Method ''exec_pcopy''),
      (Tok ''LOCK'', Method ''exec_lock''),
      (Tok ''UNLOCK'', Method ''exec_unlock''),
      (Tok ''MID'', Exec_args_iter ''_parse_mid_args_iter'' ''session.memory.mid_''),
      (Tok ''PEN'', Exec_args_iter ''_parse_event_command_iter'' ''session.events.pen_''),
      (Tok ''STRIG'', Method ''exec_strig''),
      (Chr (CHR ''_''), Method ''exec_extension'')]"

definition pcjr_tandy_table :: "(sym \<times> handler) list" where
  "pcjr_tandy_table =
     [(Tok ''TERM'', Exec_after_end ''session.term_''),
      (Tok ''NOISE'', Exec_args_iter ''_parse_noise_args_iter'' ''session.sound.noise_'')]"

text \<open>\<open>self.statements.update\<close> adds the entries of the PCjr and Tandy dialects.\<close>

definition statements :: "string \<Rightarrow> sym \<Rightarrow> handler option" where
  "statements dialect = dict_display
     (statement_table
      @ (if dialect = ''pcjr'' \<or> dialect = ''tandy'' then pcjr_tandy_table else []))"

subsection \<open>Generalised callers\<close>

definition exec_immediate :: "'s collab \<Rightarrow> string \<Rightarrow> 's conf \<Rightarrow> error option \<times> 's conf" where
  "exec_immediate col callback c = call col callback [] c"

definition exec_after_end :: "'s collab \<Rightarrow> string \<Rightarrow> 's conf \<Rightarrow> error option \<times> 's conf" where
  "exec_after_end col callback c =
     next_do (on_ins require_end c) (\<lambda>c1. call col callback [] c1)"

subsection \<open>ON: the calculated jump\<close>

text \<open>
  The loop for a selector of 0 or 255: every jump number of the list is parsed and none is
  taken. Each turn either returns or reads a line number pointer and a comma.
\<close>

function check_all_jumps :: "ins \<Rightarrow> error option \<times> ins" where
  "check_all_jumps i =
     (case parse_optional_jumpnum i (- 1) of
        (Inl e, i1) \<Rightarrow> (Some e, i1)
      | (Inr num, i1) \<Rightarrow>
          (if num = - 1 then require_end i1
           else (case skip_blank_read_if [Chr (CHR '','')] i1 of
                   (None, i2) \<Rightarrow> require_end i2
                 | (Some comma, i2) \<Rightarrow> check_all_jumps i2)))"
  by pat_completeness auto
termination
proof (relation "measure length")
  show "wf (measure length)" by simp
next
  fix i :: ins and x num i1 y comma i2
  assume p: "(x, i1) = parse_optional_jumpnum i (- 1)"
    and r: "(y, i2) = skip_blank_read_if [Chr (CHR '','')] i1" "y = Some comma"
  have sb: "length (skip_blank j) \<le> length j" for j
    by (simp add: skip_blank_def length_dropWhile_le)
  have rr: "length (snd (require_read rng j)) \<le> length j" for rng j
    using sb [of j] by (auto simp: require_read_def split: list.splits)
  have pj: "length (snd (parse_jumpnum j)) \<le> length j" for j
    using rr [of "[Tok ''T_UINT'']" j]
    by (auto simp: parse_jumpnum_def split: prod.splits sum.splits list.splits sym.splits)
  have "length (snd (parse_optional_jumpnum i (- 1))) \<le> length i"
    using sb [of i] pj [of "skip_blank i"]
    by (auto simp: parse_optional_jumpnum_def split: list.splits)
  with p have a: "length i1 \<le> length i" by (metis snd_conv)
  have "length i2 < length (skip_blank i1)"
    using r by (auto simp: skip_blank_read_if_def split: list.splits if_splits)
  then have "length i2 < length i1" using sb [of i1] by simp
  with a show "(i2, i) \<in> measure length" by simp
qed

declare check_all_jumps.simps [simp del]

text \<open>
  The loop for any other selector: \<open>n\<close> jump numbers are parsed and dropped. The result
  tells whether the list ended before the choice, in which case the statement returns.
\<close>

fun skip_jumps :: "nat \<Rightarrow> ins \<Rightarrow> (error + bool) \<times> ins" where
  "skip_jumps 0 i = (Inr False, i)"
| "skip_jumps (Suc n) i =
     (case parse_jumpnum i of
        (Inl e, i1) \<Rightarrow> (Inl e, i1)
      | (Inr num, i1) \<Rightarrow>
          (case skip_blank_read_if [Chr (CHR '','')] i1 of
             (None, i2) \<Rightarrow>
               (case require_end i2 of
                  (Some e, i3) \<Rightarrow> (Inl e, i3)
                | (None, i3) \<Rightarrow> (Inr True, i3))
           | (Some comma, i2) \<Rightarrow> skip_jumps n i2))"

definition exec_on_jump :: "host \<Rightarrow> 's collab \<Rightarrow> 's conf \<Rightarrow> error option \<times> 's conf" where
  "exec_on_jump h col c =
     andthen (parse_expression col c) (\<lambda>v c1.
     andthen (to_int h v, c1) (\<lambda>onvar c2.
     andthen (range_check 0 255 onvar, c2) (\<lambda>u c3.
     andthen (on_ins (require_read [Tok ''GOTO'', Tok ''GOSUB'']) c3) (\<lambda>command c4.
       if onvar = 0 \<or> onvar = 255 then on_ins check_all_jumps c4
       else
         andthen (on_ins (skip_jumps (nat (onvar - 1))) c4) (\<lambda>returned c5.
           if returned then (None, c5)
           else
             andthen (on_ins parse_jumpnum c5) (\<lambda>jumpnum c6.
               if command = Tok ''GOTO''
               then call col ''session.interpreter.jump'' [Num jumpnum] c6
               else if command = Tok ''GOSUB''
               then call col ''session.interpreter.jump_sub'' [Num jumpnum] c6
               else (None, c6)))))))"

definition exec_on :: "host \<Rightarrow> 's collab \<Rightarrow> 's conf \<Rightarrow> error option \<times> 's conf" where
  "exec_on h col c =
     (case c of (i, \<sigma>) \<Rightarrow>
        (case skip_blank i of
           [] \<Rightarrow> exec_on_jump h col ([], \<sigma>)
         | x # xs \<Rightarrow>
             (if x = Tok ''ERROR'' \<or> x = Tok ''KEY'' \<or> lead_fe_ff col x
              then (if x = Tok ''ERROR''
                    then andthen (on_ins (require_read [Tok ''GOTO'']) (xs, \<sigma>)) (\<lambda>g c1.
                         andthen (on_ins parse_jumpnum c1) (\<lambda>jumpnum c2.
                           call col ''session.interpreter.on_error_goto_'' [Num jumpnum] c2))
                    else unmodelled col ''exec_on_event'' [Sym x] (xs, \<sigma>))
              else exec_on_jump h col (x # xs, \<sigma>))))"

subsection \<open>FOR and OPTION BASE\<close>

definition exec_for_tail ::
  "host \<Rightarrow> 's collab \<Rightarrow> string \<Rightarrow> char \<Rightarrow> val \<Rightarrow> 's conf \<Rightarrow> error option \<times> 's conf" where
  "exec_for_tail h col varname vartype start_value c =
     andthen (parse_expression col c) (\<lambda>v c1.
     andthen (to_type h vartype v, c1) (\<lambda>stop c2.
     (case on_ins (skip_blank_read_if [Tok ''STEP'']) c2 of
        (None, c3) \<Rightarrow>
          next_do (on_ins require_end c3) (\<lambda>c4.
            call col ''session.interpreter.for_'' [Name varname, Val start_value, Val stop, Nothing] c4)
      | (Some t, c3) \<Rightarrow>
          andthen (parse_expression col c3) (\<lambda>w c4.
          andthen (to_type h vartype w, c4) (\<lambda>step c5.
          next_do (on_ins require_end c5) (\<lambda>c6.
            call col ''session.interpreter.for_'' [Name varname, Val start_value, Val stop, Val step]
              c6))))))"

definition exec_for :: "host \<Rightarrow> 's collab \<Rightarrow> 's conf \<Rightarrow> error option \<times> 's conf" where
  "exec_for h col c =
     andthen (parse_name col c) (\<lambda>varname c1.
     andthen (py_index varname (- 1), c1) (\<lambda>vartype c2.
     andthen (on_ins (require_read [Tok ''O_EQ'']) c2) (\<lambda>eq c3.
     andthen (parse_expression col c3) (\<lambda>v c4.
     andthen (to_type h vartype v, c4) (\<lambda>start_value c5.
     andthen (on_ins (require_read [Tok ''TO'']) c5) (\<lambda>t c6.
       if vartype = CHR ''$'' \<or> vartype = CHR ''#'' then (Some TYPE_MISMATCH, c6)
       else exec_for_tail h col varname vartype start_value c6))))))"

definition exec_option :: "'s collab \<Rightarrow> 's conf \<Rightarrow> error option \<times> 's conf" where
  "exec_option col c =
     andthen (on_ins (require_read [Tok ''W_BASE'']) c) (\<lambda>b c1.
     andthen (on_ins (require_read [Chr (CHR ''0''), Chr (CHR ''1'')]) c1) (\<lambda>d c2.
       call col ''session.arrays.option_base_'' [Sym d] c2))"

subsection \<open>Dispatch\<close>

definition run_handler ::
  "host \<Rightarrow> 's collab \<Rightarrow> handler \<Rightarrow> 's conf \<Rightarrow> error option \<times> 's conf" where
  "run_handler h col hnd c =
     (case hnd of
        Exec_after_end callback \<Rightarrow> exec_after_end col callback c
      | Exec_immediate callback \<Rightarrow> exec_immediate col callback c
      | Exec_args_iter args_iter callback \<Rightarrow>
          unmodelled col ''exec_args_iter'' [Name args_iter, Name callback] c
      | Exec_single_string_arg callback \<Rightarrow> unmodelled col ''exec_single_string_arg'' [Name callback] c
      | Exec_files_shell callback \<Rightarrow> unmodelled col ''exec_files_shell'' [Name callback] c
      | Exec_deftype typechar \<Rightarrow> unmodelled col ''exec_deftype'' [Sym (Chr typechar)] c
      | Method m \<Rightarrow>
          (if m = ''exec_on'' then exec_on h col c
           else if m = ''exec_for'' then exec_for h col c
           else if m = ''exec_option'' then exec_option col c
           else unmodelled col m [] c))"

definition lookup_statement :: "string \<Rightarrow> sym option \<Rightarrow> handler option" where
  "lookup_statement dialect c = (case c of None \<Rightarrow> None | Some x \<Rightarrow> statements dialect x)"

definition parse_statement ::
  "host \<Rightarrow> 's collab \<Rightarrow> string \<Rightarrow> 's conf \<Rightarrow> error option \<times> 's conf" where
  "parse_statement h col dialect c =
     (case c of (i, \<sigma>) \<Rightarrow>
        (case read_keyword_token (skip_blank i) of (k, i1) \<Rightarrow>
           (case lookup_statement dialect k of
              Some hnd \<Rightarrow> next_do (run_handler h col hnd (i1, \<sigma>)) (on_ins require_end)
            | None \<Rightarrow>
                (if in_ascii_letters k
                 then (case statements dialect (Tok ''LET'') of
                         None \<Rightarrow> (Some KeyError, (skip_blank i, \<sigma>))
                       | Some hnd \<Rightarrow> run_handler h col hnd (skip_blank i, \<sigma>))
                 else on_ins require_end (skip_blank i, \<sigma>)))))"

subsection \<open>Statements: trailing garbage and a small session\<close>

text \<open>
  Trailing garbage: the next symbol that is not blank exists and does not end a
  statement.
\<close>

definition garbage :: "ins \<Rightarrow> bool" where
  "garbage i = (case skip_blank i of [] \<Rightarrow> False | x # xs \<Rightarrow> x \<notin> set END_STATEMENT)"

text \<open>
  An instance of the collaborators. The session is the list of the callbacks called so
  far. An expression is one symbol: a digit for an integer, a double quote for the empty
  string, anything else is a missing operand. A name is two characters.
\<close>

definition toy_collab :: "string list collab" where
  "toy_collab =
     \<lparr> call = (\<lambda>callback args c. (None, (fst c, snd c @ [callback]))),
       parse = (\<lambda>c. case fst c of
                      Chr x # xs \<Rightarrow>
                        (if 48 \<le> (of_char x :: nat) \<and> (of_char x :: nat) \<le> 57
                         then (Inr (CHR ''%'', [of_char x - 48, 0]), (xs, snd c))
                         else if x = CHR 0x22 then (Inr (CHR ''$'', []), (xs, snd c))
                         else (Inl (RunError 22), c))
                    | other \<Rightarrow> (Inl (RunError 22), c)),
       set_redo_on_break = (\<lambda>b \<sigma>. \<sigma>),
       read_name = (\<lambda>i. case i of
                      Chr x # Chr y # xs \<Rightarrow> ([x, y], xs)
                    | other \<Rightarrow> ([], i)),
       session_deftype = (\<lambda>\<sigma>. replicate 26 (CHR ''!'')),
       lead_fe_ff = (\<lambda>x. False),
       unmodelled = (\<lambda>m args c. (None, c)) \<rparr>"

subsection \<open>OPTION BASE on the variable store\<close>

text \<open>
  Modelled from the spec: the callback \<open>session.arrays.option_base_\<close> is not among the
  source files. OPTION BASE acts on the store as \<open>base_array\<close> of var.py does, applied
  to the value of the digit that the statement read.
\<close>

definition option_base :: "sym \<Rightarrow> vstate conf \<Rightarrow> error option \<times> vstate conf" where
  "option_base d c =
     (case c of (i, s) \<Rightarrow>
        (case d of
           Tok t \<Rightarrow> (Some ValueError, (i, s))
         | Chr x \<Rightarrow>
             (case base_array s (int (of_char x) - 48) of (e, s') \<Rightarrow> (e, (i, s')))))"

text \<open>An instance of the collaborators whose session is the variable store.\<close>

definition var_collab :: "vstate collab" where
  "var_collab =
     \<lparr> call = (\<lambda>callback args c.
                 case args of
                   [Sym d] \<Rightarrow> (if callback = ''session.arrays.option_base_'' then option_base d c
                               else (None, c))
                 | other \<Rightarrow> (None, c)),
       parse = (\<lambda>c. (Inl (RunError 22), c)),
       set_redo_on_break = (\<lambda>b \<sigma>. \<sigma>),
       read_name = (\<lambda>i. ([], i)),
       session_deftype = deftype,
       lead_fe_ff = (\<lambda>x. False),
       unmodelled = (\<lambda>m args c. (None, c)) \<rparr>"

subsection \<open>Lists of jump numbers\<close>

text \<open>
  The symbols of a line number pointer for the line \<open>n\<close>, and a run of such pointers,
  each followed by a comma, in front of the rest of the stream. The list of jump numbers
  \<open>n1, ..., nk, m\<close> is \<open>jump_prefix [n1, ..., nk] (jumpnum_token m @ rest)\<close>.
\<close>

definition jumpnum_token :: "nat \<Rightarrow> ins" where
  "jumpnum_token n = [Tok ''T_UINT'', Chr (char_of (n mod 256)), Chr (char_of (n div 256))]"

fun jump_prefix :: "nat list \<Rightarrow> ins \<Rightarrow> ins" where
  "jump_prefix [] rest = rest"
| "jump_prefix (n # ns) rest = jumpnum_token n @ Chr (CHR '','') # jump_prefix ns rest"

section \<open>Properties\<close>

subsection \<open>Names and basic access\<close>

lemma complete_name_sigil:
  "is_sigil (last name) \<Longrightarrow> complete_name dt name = Inr name"
  by (simp add: complete_name_def)

lemma py_index_last: "name \<noteq> [] \<Longrightarrow> py_index name (- 1) = Inr (last name)"
  by (simp add: py_index_def Let_def last_conv_nth nat_diff_distrib')

subsection \<open>Reading and assigning scalars\<close>

lemma set_var_memory_variables:
  "set_var_memory s name c n = (r, s') \<Longrightarrow> variables s' = variables s"
  by (auto simp: set_var_memory_def Let_def split: option.splits prod.splits if_splits)

lemma set_var_stores:
  assumes "complete_name (deftype s) name0 = Inr name"
    and "set_var h s name0 v = (None, s')"
  shows "map_of (variables s') name \<noteq> None"
  using assms
  by (auto simp: set_var_def Let_def AList.update_conv'
      split: sum.splits if_splits dest!: set_var_memory_variables)

text \<open>
  C9, as the code has it. A scalar is created by its first assignment. Reading a scalar
  that was never assigned returns the zero value of the type of its completed name (the
  empty string for \<open>$\<close>, as many zero bytes as the type has otherwise) and leaves the
  store as it was: the read does not create the variable.
\<close>

theorem get_var_unassigned:
  assumes "complete_name (deftype s) name0 = Inr name"
    and "name \<noteq> []"
    and "map_of (variables s) name = None"
  shows "get_var s name0 = (null (last name), s)
    \<and> (last name = CHR ''$'' \<longrightarrow> null (last name) = Inr (CHR ''$'', []))
    \<and> (\<forall>n. last name \<noteq> CHR ''$'' \<and> byte_size (last name) = Some n
             \<longrightarrow> null (last name) = Inr (last name, replicate n 0))
    \<and> (\<forall>h v s'. set_var h s name0 v = (None, s') \<longrightarrow> map_of (variables s') name \<noteq> None)"
  using assms set_var_stores [OF assms(1)]
  by (simp add: get_var_def py_index_last null_def)

theorem get_var_unassigned_witness:
  "get_var clear_variables ''A%'' = (Inr (CHR ''%'', [0, 0]), clear_variables)
   \<and> set_var \<lparr>can_alloc = (\<lambda>n. True), num_conv = (\<lambda>t v. Inr v)\<rparr>
        clear_variables ''A%'' (CHR ''%'', [7, 0])
      = (None, clear_variables\<lparr>variables := [(''A%'', [7, 0])], var_current := 4726,
                 var_memory := [(''A%'', 4720, 4724, - 1)]\<rparr>)
   \<and> map_of (variables (clear_variables\<lparr>variables := [(''A%'', [7, 0])], var_current := 4726,
                 var_memory := [(''A%'', 4720, 4724, - 1)]\<rparr>)) ''A%'' \<noteq> None"
proof -
  have c: "complete_name (deftype clear_variables) ''A%'' = Inr ''A%''"
    by (simp add: complete_name_def is_sigil_def)
  have v: "map_of (variables clear_variables) ''A%'' = None"
    by (simp add: clear_variables_def)
  have n: "null (last ''A%'') = Inr (CHR ''%'', [0, 0])"
    by (simp add: null_def byte_size_def numeral_2_eq_2)
  have w: "set_var \<lparr>can_alloc = (\<lambda>n. True), num_conv = (\<lambda>t v. Inr v)\<rparr>
        clear_variables ''A%'' (CHR ''%'', [7, 0])
      = (None, clear_variables\<lparr>variables := [(''A%'', [7, 0])], var_current := 4726,
                 var_memory := [(''A%'', 4720, 4724, - 1)]\<rparr>)"
    by (simp add: set_var_def set_var_memory_def complete_name_def is_sigil_def py_index_def
        pass_type_keep_def clear_variables_def byte_size_def var_mem_start_def Let_def)
  show ?thesis
    using get_var_unassigned [OF c _ v] n w by simp
qed

text \<open>
  C9 as the spec words it fails: after the first read of \<open>A!\<close> in a cleared store the
  variable is still absent from the store.
\<close>

theorem get_var_creates_counterexample:
  "fst (get_var clear_variables ''A!'') = Inr (CHR ''!'', [0, 0, 0, 0])
   \<and> map_of (variables (snd (get_var clear_variables ''A!''))) ''A!'' = None"
  by (simp add: get_var_def clear_variables_def complete_name_def is_sigil_def py_index_def
      null_def byte_size_def numeral_eq_Suc)

subsection \<open>The keyboard buffer\<close>

lemma FUNCTION_KEY_bound: "FUNCTION_KEY ea c = Some n \<Longrightarrow> n < 12"
proof -
  assume "FUNCTION_KEY ea c = Some n"
  then have "(c, n) \<in> set (rev (zip ea [0 ..< 12]))"
    unfolding FUNCTION_KEY_def dict_display_def by (rule map_of_SomeD)
  then have "n \<in> set [0 ..< 12]" by (auto dest: set_zip_rightD)
  then show ?thesis by simp
qed

lemma py_index_nat: "n < length xs \<Longrightarrow> py_index xs (int n) = Inr (xs ! n)"
  by (simp add: py_index_def Let_def)

text \<open>
  C4. A non-empty expansion vessel gives up its first byte and nothing else changes, so a
  byte of a macro body is never expanded again. With an empty vessel the head of the ring
  is popped and \<open>start\<close> is bumped; a function-key code, when expansion is on, replaces
  the vessel by the macro of that key and the first byte of the macro is returned, the
  rest staying in the vessel; an empty macro returns the function-key code itself.
\<close>

theorem getc_cases:
  "(expansion_vessel k = v # vs \<longrightarrow> getc ea k expand = (Inr v, k\<lparr>expansion_vessel := vs\<rparr>))
   \<and> (expansion_vessel k = [] \<and> buffer k = [] \<and> FUNCTION_KEY ea [] = None
        \<longrightarrow> getc ea k expand = (Inr [], k))
   \<and> (expansion_vessel k = [] \<and> buffer k = (c, scan, m) # rest \<and> c \<noteq> [] \<and> ring_length k \<noteq> 0
        \<and> length (key_replace k) = 12 \<longrightarrow>
        (let k2 = k\<lparr>buffer := rest, start := (start k + 1) mod ring_length k\<rparr>
         in (\<not> expand \<or> FUNCTION_KEY ea c = None \<longrightarrow> getc ea k expand = (Inr c, k2))
          \<and> (\<forall>n. expand \<and> FUNCTION_KEY ea c = Some n \<longrightarrow>
                (key_replace k ! n = [] \<longrightarrow>
                   getc ea k expand = (Inr c, k2\<lparr>expansion_vessel := []\<rparr>))
              \<and> (\<forall>x xs. key_replace k ! n = x # xs \<longrightarrow>
                   getc ea k expand = (Inr [x], k2\<lparr>expansion_vessel := map (\<lambda>y. [y]) xs\<rparr>)))))"
proof (intro conjI impI)
  assume "expansion_vessel k = v # vs"
  then show "getc ea k expand = (Inr v, k\<lparr>expansion_vessel := vs\<rparr>)"
    by (simp add: getc_def)
next
  assume "expansion_vessel k = [] \<and> buffer k = [] \<and> FUNCTION_KEY ea [] = None"
  then have "k\<lparr>buffer := []\<rparr> = k" by simp
  with \<open>expansion_vessel k = [] \<and> buffer k = [] \<and> FUNCTION_KEY ea [] = None\<close>
  show "getc ea k expand = (Inr [], k)"
    by (simp add: getc_def Let_def)
next
  assume a: "expansion_vessel k = [] \<and> buffer k = (c, scan, m) # rest \<and> c \<noteq> []
     \<and> ring_length k \<noteq> 0 \<and> length (key_replace k) = 12"
  show "let k2 = k\<lparr>buffer := rest, start := (start k + 1) mod ring_length k\<rparr>
         in (\<not> expand \<or> FUNCTION_KEY ea c = None \<longrightarrow> getc ea k expand = (Inr c, k2))
          \<and> (\<forall>n. expand \<and> FUNCTION_KEY ea c = Some n \<longrightarrow>
                (key_replace k ! n = [] \<longrightarrow>
                   getc ea k expand = (Inr c, k2\<lparr>expansion_vessel := []\<rparr>))
              \<and> (\<forall>x xs. key_replace k ! n = x # xs \<longrightarrow>
                   getc ea k expand = (Inr [x], k2\<lparr>expansion_vessel := map (\<lambda>y. [y]) xs\<rparr>)))"
    unfolding Let_def
  proof (intro conjI allI impI)
    assume "\<not> expand \<or> FUNCTION_KEY ea c = None"
    with a show "getc ea k expand = (Inr c, k\<lparr>buffer := rest, start := (start k + 1) mod ring_length k\<rparr>)"
      by (auto simp: getc_def Let_def)
  next
    fix n assume b: "expand \<and> FUNCTION_KEY ea c = Some n" and e: "key_replace k ! n = []"
    from b have "n < 12" by (auto dest: FUNCTION_KEY_bound)
    with a have "py_index (key_replace k) (int n) = Inr (key_replace k ! n)"
      by (simp add: py_index_nat)
    with a b e show "getc ea k expand = (Inr c, k\<lparr>buffer := rest, start := (start k + 1) mod ring_length k,
        expansion_vessel := []\<rparr>)"
      by (simp add: getc_def Let_def)
  next
    fix n x xs assume b: "expand \<and> FUNCTION_KEY ea c = Some n" and e: "key_replace k ! n = x # xs"
    from b have "n < 12" by (auto dest: FUNCTION_KEY_bound)
    with a have "py_index (key_replace k) (int n) = Inr (key_replace k ! n)"
      by (simp add: py_index_nat)
    with a b e show "getc ea k expand = (Inr [x], k\<lparr>buffer := rest, start := (start k + 1) mod ring_length k,
        expansion_vessel := map (\<lambda>y. [y]) xs\<rparr>)"
      by (simp add: getc_def Let_def)
  qed
qed

lemma upt12: "[0 ..< 12] = [0,1,2,3,4,5,6,7,8,9,10,11::nat]"
  by (simp add: upt_rec)

theorem getc_cases_witness:
  "getc [ [CHR 0x00, CHR 0x3B], [CHR 0x00, CHR 0x3C] ]
     ((init_buffer 15)\<lparr>buffer := [([CHR 0x00, CHR 0x3C], Some 60, Some 0)]\<rparr>) True
   = (Inr ''R'', (init_buffer 15)\<lparr>buffer := [], start := 1,
        expansion_vessel := [''U'', ''N'', [CHR 13] ]\<rparr>)
   \<and> getc [ [CHR 0x00, CHR 0x3B], [CHR 0x00, CHR 0x3C] ]
     ((init_buffer 15)\<lparr>buffer := [], start := 1,
        expansion_vessel := [''U'', ''N'', [CHR 13] ]\<rparr>) True
   = (Inr ''U'', (init_buffer 15)\<lparr>buffer := [], start := 1,
        expansion_vessel := [''N'', [CHR 13] ]\<rparr>)"
proof -
  let ?ea = "[ [CHR 0x00, CHR 0x3B], [CHR 0x00, CHR 0x3C] ]"
  let ?k = "(init_buffer 15)\<lparr>buffer := [([CHR 0x00, CHR 0x3C], Some 60, Some 0)]\<rparr>"
  let ?k' = "(init_buffer 15)\<lparr>buffer := [], start := 1,
        expansion_vessel := [''U'', ''N'', [CHR 13] ]\<rparr>"
  have fk: "FUNCTION_KEY ?ea [CHR 0x00, CHR 0x3C] = Some 1"
    by (simp add: FUNCTION_KEY_def dict_display_def upt12)
  have kr: "key_replace ?k ! 1 = CHR ''R'' # (''UN'' @ [CHR 13])"
    by (simp add: init_buffer_def default_macros_def)
  have len: "length (key_replace ?k) = 12"
    by (simp add: init_buffer_def default_macros_def)
  have pre: "expansion_vessel ?k = [] \<and> buffer ?k = [([CHR 0x00, CHR 0x3C], Some 60, Some 0)]
      \<and> [CHR 0x00, CHR 0x3C] \<noteq> [] \<and> ring_length ?k \<noteq> 0 \<and> length (key_replace ?k) = 12"
    using len by (simp add: init_buffer_def)
  have one: "getc ?ea ?k True = (Inr ''R'', ?k')"
    using getc_cases [of ?k _ _ ?ea True "[CHR 0x00, CHR 0x3C]" "Some 60" "Some 0" "[]"] pre fk kr
    by (simp add: Let_def init_buffer_def)
  have two: "getc ?ea ?k' True = (Inr ''U'', ?k'\<lparr>expansion_vessel := [''N'', [CHR 13] ]\<rparr>)"
    using getc_cases [of ?k' "''U''" "[''N'', [CHR 13] ]" ?ea True]
    by (simp add: init_buffer_def)
  show ?thesis using one two by (simp add: init_buffer_def)
qed

subsection \<open>The modifier state\<close>

lemma MODIFIER_distinct:
  assumes "distinct [ALT sc, CTRL sc, LSHIFT sc, RSHIFT sc]"
  shows "MODIFIER sc m =
    (if m = ALT sc then Some 8 else if m = CTRL sc then Some 4
     else if m = LSHIFT sc then Some 2 else if m = RSHIFT sc then Some 1 else None)"
  using assms by (auto simp: MODIFIER_def dict_display_def)

lemma TOGGLE_distinct:
  assumes "distinct [INSERT sc, CAPSLOCK sc, NUMLOCK sc, SCROLOCK sc]"
  shows "TOGGLE sc x =
    (if x = INSERT sc then Some 0x80 else if x = CAPSLOCK sc then Some 0x40
     else if x = NUMLOCK sc then Some 0x20 else if x = SCROLOCK sc then Some 0x10 else None)"
  using assms by (auto simp: TOGGLE_def dict_display_def)

lemma nonsticky_mask_15:
  assumes "distinct [ALT sc, CTRL sc, LSHIFT sc, RSHIFT sc]"
  shows "nonsticky_mask sc = 15"
proof -
  have "(4::int) OR 8 OR 2 OR 1 = 15" by simp
  then show ?thesis
  using assms by (simp add: nonsticky_mask_def subscript_def MODIFIER_distinct [OF assms])
qed

lemma or_modifiers_foldl:
  assumes "distinct [ALT sc, CTRL sc, LSHIFT sc, RSHIFT sc]"
  shows "or_modifiers sc ms m =
    foldl (OR) m (map (\<lambda>x. if x = ALT sc then 8 else if x = CTRL sc then 4
                        else if x = LSHIFT sc then 2 else if x = RSHIFT sc then 1 else 0) ms)"
  by (induction ms arbitrary: m) (simp_all add: get0_def MODIFIER_distinct [OF assms])

lemma kmod_key_down:
  "kmod (key_down sc cp kb c scan mods cf) =
     xor_toggle sc scan (or_modifiers sc mods (kmod kb AND NOT (nonsticky_mask sc)))"
  by (cases scan) (simp_all add: key_down_def Let_def split: option.splits)

text \<open>
  C6, as the code has it. On a key-down event the four nonsticky bits of the modifier state
  are cleared, the bit of every scancode in the event's modifier list is OR'd in, with
  ALT = 8, CTRL = 4, LSHIFT = 2 and RSHIFT = 1, and the bit of the pressed key is XOR'd
  when it is a toggle key, with INSERT = 0x80, CAPSLOCK = 0x40, NUMLOCK = 0x20 and
  SCROLLLOCK = 0x10. The scancodes of the four modifiers are distinct, and so are those of
  the four toggles.
\<close>

theorem key_down_modifiers:
  assumes "distinct [ALT sc, CTRL sc, LSHIFT sc, RSHIFT sc]"
    and "distinct [INSERT sc, CAPSLOCK sc, NUMLOCK sc, SCROLOCK sc]"
  shows "kmod (key_down sc cp kb c scan mods check_full) =
    foldl (OR) (kmod kb AND NOT 15)
      (map (\<lambda>x. if x = ALT sc then 8 else if x = CTRL sc then 4
                 else if x = LSHIFT sc then 2 else if x = RSHIFT sc then 1 else 0) mods)
    XOR (case scan of
           None \<Rightarrow> 0
         | Some x \<Rightarrow> if x = INSERT sc then 0x80 else if x = CAPSLOCK sc then 0x40
                      else if x = NUMLOCK sc then 0x20 else if x = SCROLOCK sc then 0x10 else 0)"
  by (simp add: kmod_key_down nonsticky_mask_15 [OF assms(1)] or_modifiers_foldl [OF assms(1)]
      xor_toggle_def TOGGLE_distinct [OF assms(2)] split: option.splits)

theorem key_down_modifiers_witness:
  "kmod (key_down xt_scancodes plain_codepage (init_keyboard\<lparr>kmod := 0x23\<rparr>) ''a''
           (Some (CAPSLOCK xt_scancodes)) [CTRL xt_scancodes] True) = 0x64"
proof -
  have d1: "distinct [ALT xt_scancodes, CTRL xt_scancodes, LSHIFT xt_scancodes, RSHIFT xt_scancodes]"
    by (simp add: xt_scancodes_def)
  have d2: "distinct [INSERT xt_scancodes, CAPSLOCK xt_scancodes, NUMLOCK xt_scancodes,
      SCROLOCK xt_scancodes]"
    by (simp add: xt_scancodes_def)
  have a: "(0x23::int) AND NOT 15 = 0x20" by simp
  have b: "(0x20::int) OR 4 = 0x24" by simp
  have c: "(0x24::int) XOR 0x40 = 0x64" by simp
  show ?thesis
    using key_down_modifiers [OF d1 d2, of plain_codepage "init_keyboard\<lparr>kmod := 0x23\<rparr>" "''a''"
        "Some (CAPSLOCK xt_scancodes)" "[CTRL xt_scancodes]" True] a b c
    by (simp add: xt_scancodes_def)
qed

text \<open>
  C6 as the spec words it gives LSHIFT the bit 1 and RSHIFT the bit 2; the code has them
  the other way round.
\<close>

theorem key_down_shift_bits_counterexample:
  "kmod (key_down xt_scancodes plain_codepage init_keyboard ''a'' (Some 0x1E)
           [LSHIFT xt_scancodes] True) = 2
   \<and> kmod (key_down xt_scancodes plain_codepage init_keyboard ''a'' (Some 0x1E)
           [RSHIFT xt_scancodes] True) = 1"
proof -
  have a: "(0::int) AND NOT 15 = 0" by simp
  show ?thesis
    by (simp add: key_down_def Let_def xt_scancodes_def init_keyboard_def nonsticky_mask_def
        subscript_def get0_def MODIFIER_def TOGGLE_def KEYPAD_def dict_display_def xor_toggle_def)
qed

subsection \<open>Array cells: reading what was written\<close>

lemma index_array_loop_linear:
  "length is \<le> length ds \<Longrightarrow>
   index_array_loop b is ds bigindex area = Inr (bigindex + area * linear b is ds)"
proof (induction b "is" ds bigindex area rule: index_array_loop.induct)
  case (3 b i "is" d ds bigindex area)
  then show ?case by (simp add: algebra_simps)
qed simp_all

lemma linear_self: "linear b ds ds + 1 = prod_list (map (\<lambda>d. d + 1 - b) ds)"
proof (induction ds)
  case Nil
  then show ?case by simp
next
  case (Cons d ds)
  have "linear b (d # ds) (d # ds) + 1 = (d + 1 - b) * (linear b ds ds + 1)"
    by (simp add: algebra_simps)
  with Cons show ?case by simp
qed

lemma linear_bounds:
  "in_range b is ds \<Longrightarrow> 0 \<le> linear b is ds \<and> linear b is ds < prod_list (map (\<lambda>d. d + 1 - b) ds)"
  unfolding in_range_def
proof (induction "is" ds rule: list_all2_induct)
  case Nil
  then show ?case by simp
next
  case (Cons i "is" d ds)
  let ?e = "d + 1 - b" and ?L = "linear b is ds" and ?P = "prod_list (map (\<lambda>d. d + 1 - b) ds)"
  from Cons have e: "0 \<le> i - b" "i - b < ?e" and L: "0 \<le> ?L" "?L + 1 \<le> ?P" by auto
  have "0 \<le> ?e * ?L" using e L by simp
  moreover have "?e * (?L + 1) \<le> ?e * ?P" using e L by (intro mult_left_mono) auto
  ultimately show ?case using e by (simp add: algebra_simps)
qed

lemma linear_inj:
  "in_range b is ds \<Longrightarrow> in_range b js ds \<Longrightarrow> linear b is ds = linear b js ds \<Longrightarrow> is = js"
proof (induction ds arbitrary: "is" js)
  case Nil
  then show ?case by (simp add: in_range_def)
next
  case (Cons d ds)
  from Cons.prems obtain i is' j js' where
    eq: "is = i # is'" "js = j # js'" and
    r: "b \<le> i" "i \<le> d" "b \<le> j" "j \<le> d" "in_range b is' ds" "in_range b js' ds"
    by (auto simp: in_range_def list_all2_Cons2)
  let ?e = "d + 1 - b"
  from Cons.prems(3) eq have l: "(i - b) + ?e * linear b is' ds = (j - b) + ?e * linear b js' ds"
    by simp
  have "((i - b) + ?e * linear b is' ds) mod ?e = i - b" using r by simp
  moreover have "((j - b) + ?e * linear b js' ds) mod ?e = j - b" using r by simp
  ultimately have ij: "i = j" using l by simp
  with l r have "linear b is' ds = linear b js' ds" by simp
  with Cons.IH r have "is' = js'" by blast
  with ij eq show ?case by simp
qed

lemma slice_of_update:
  assumes "length v = n" and "(K + 1) * n \<le> length b"
  shows "take n (drop (K' * n) (take (K * n) b @ v @ drop ((K + 1) * n) b)) =
         (if K' = K then v else take n (drop (K' * n) b))"
proof -
  have lk: "K * n \<le> length b" using assms(2) by simp
  consider "K' = K" | "K' < K" | "K < K'" by linarith
  then show ?thesis
  proof cases
    case 1
    with assms lk show ?thesis by (simp add: min_absorb2)
  next
    case 2
    then have "Suc K' \<le> K" by simp
    then have "Suc K' * n \<le> K * n" by (rule mult_le_mono1)
    then have le: "K' * n + n \<le> K * n" by simp
    with 2 lk show ?thesis by (simp add: min_absorb2 take_drop)
  next
    case 3
    then have "Suc K \<le> K'" by simp
    then have "Suc K * n \<le> K' * n" by (rule mult_le_mono1)
    then have le: "K * n + n \<le> K' * n" by simp
    with 3 lk assms show ?thesis by (simp add: min_absorb2)
  qed
qed

lemma check_index_in_range:
  "in_range b is ds \<Longrightarrow> 0 \<le> b \<Longrightarrow> check_index b is ds = None"
  unfolding in_range_def
  by (induction "is" ds rule: list_all2_induct) auto

lemma in_range_length: "in_range b is ds \<Longrightarrow> length is = length ds"
  by (simp add: in_range_def list_all2_lengthD)

lemma check_dim_array_present:
  assumes "map_of (arrays s) name = Some (dims, lst)"
    and "in_range (array_base s) idx dims" and "0 \<le> array_base s"
  shows "check_dim_array h s name idx = (Inr (dims, lst), s)"
  using assms
  by (simp add: check_dim_array_def check_bounds_def check_index_in_range in_range_length)

lemma index_array_in_range:
  assumes "in_range (array_base s) idx dims"
  shows "index_array s idx dims = Inr (linear (array_base s) idx dims)"
  using in_range_length [OF assms] by (simp add: index_array_def index_array_loop_linear)

lemma cell_position:
  assumes "in_range b idx dims"
  shows "0 \<le> linear b idx dims" and "nat (linear b idx dims) < cells b dims"
  using linear_bounds [OF assms] by (auto simp: cells_def)

lemma py_bound_nat: "m \<le> n \<Longrightarrow> py_bound n (int m) = m"
  by (simp add: py_bound_def)

lemma slice_bounds:
  assumes "K < N" and "length b = N * n"
  shows "py_bound (length b) (int K * int n) = K * n"
    and "py_bound (length b) ((int K + 1) * int n) = (K + 1) * n"
proof -
  from assms(1) have "Suc K \<le> N" by simp
  then have "Suc K * n \<le> N * n" by (rule mult_le_mono1)
  then have le: "(K + 1) * n \<le> length b" using assms(2) by simp
  then have le0: "K * n \<le> length b" by simp
  have e0: "int K * int n = int (K * n)" by simp
  have e1: "(int K + 1) * int n = int ((K + 1) * n)" by (simp add: algebra_simps)
  show "py_bound (length b) (int K * int n) = K * n"
    unfolding e0 using le0 by (rule py_bound_nat)
  show "py_bound (length b) ((int K + 1) * int n) = (K + 1) * n"
    unfolding e1 using le by (rule py_bound_nat)
qed

lemma py_slice_cell:
  assumes "K < N" and "length b = N * n"
  shows "py_slice b (int K * int n) ((int K + 1) * int n) = take n (drop (K * n) b)"
  by (simp add: py_slice_def Let_def slice_bounds [OF assms])

lemma py_slice_assign_cell:
  assumes "K < N" and "length b = N * n"
  shows "py_slice_assign b (int K * int n) ((int K + 1) * int n) v =
         take (K * n) b @ v @ drop ((K + 1) * n) b"
  by (simp add: py_slice_assign_def Let_def slice_bounds [OF assms])

lemma map_of_store_payload:
  "map_of (arrays (store_payload s name dims lst)) name = Some (dims, lst)"
  by (simp add: store_payload_def AList.update_conv')

lemma array_base_store_payload: "array_base (store_payload s name dims lst) = array_base s"
  by (simp add: store_payload_def)

lemma cell_obtain:
  assumes "in_range b idx dims"
  obtains K where "linear b idx dims = int K" and "K < cells b dims"
proof -
  have "linear b idx dims = int (nat (linear b idx dims))"
    using cell_position(1) [OF assms] by simp
  then show ?thesis using cell_position(2) [OF assms] that by blast
qed

lemma get_array_numeric:
  assumes m: "map_of (arrays s) name = Some (dims, ByteArr b)"
    and nm: "name \<noteq> []" "last name \<noteq> CHR ''$''" "byte_size (last name) = Some n"
    and r: "in_range (array_base s) idx dims" "0 \<le> array_base s"
    and len: "length b = cells (array_base s) dims * n"
  shows "get_array h s name idx =
    (Inr (last name, take n (drop (nat (linear (array_base s) idx dims) * n) b)), s)"
proof -
  from r(1) obtain K where k: "linear (array_base s) idx dims = int K"
    and lt: "K < cells (array_base s) dims" by (rule cell_obtain)
  have sl: "py_slice b (int K * int n) ((int K + 1) * int n) = take n (drop (K * n) b)"
    by (rule py_slice_cell [OF lt len])
  have "get_array h s name idx =
      (Inr (last name, py_slice b (int K * int n) ((int K + 1) * int n)), s)"
    unfolding get_array_def
    by (simp add: check_dim_array_present [OF m r] index_array_in_range [OF r(1)] py_index_last
        nm var_size_bytes_def k)
  then show ?thesis by (simp only: sl k nat_int)
qed

lemma set_array_numeric:
  assumes m: "map_of (arrays s) name = Some (dims, ByteArr b)"
    and nm: "name \<noteq> []" "last name \<noteq> CHR ''$''" "byte_size (last name) = Some n"
    and r: "in_range (array_base s) idx dims" "0 \<le> array_base s"
    and len: "length b = cells (array_base s) dims * n"
    and v: "pass_type_keep h (last name) value = Inr v"
  shows "set_array h s name idx value =
    (None, store_payload s name dims
       (ByteArr (take (nat (linear (array_base s) idx dims) * n) b @ snd v
                 @ drop ((nat (linear (array_base s) idx dims) + 1) * n) b)))"
proof -
  from r(1) obtain K where k: "linear (array_base s) idx dims = int K"
    and lt: "K < cells (array_base s) dims" by (rule cell_obtain)
  have sl: "py_slice_assign b (int K * int n) ((int K + 1) * int n) (snd v) =
      take (K * n) b @ snd v @ drop ((K + 1) * n) b"
    by (rule py_slice_assign_cell [OF lt len])
  have "set_array h s name idx value =
      (None, store_payload s name dims
         (ByteArr (py_slice_assign b (int K * int n) ((int K + 1) * int n) (snd v))))"
    unfolding set_array_def
    by (simp add: check_dim_array_present [OF m r] index_array_in_range [OF r(1)] py_index_last
        nm var_size_bytes_def v k)
  then show ?thesis by (simp only: sl k nat_int)
qed

lemma get_array_string:
  assumes m: "map_of (arrays s) name = Some (dims, StrList l)"
    and nm: "name \<noteq> []" "last name = CHR ''$''"
    and r: "in_range (array_base s) idx dims" "0 \<le> array_base s"
    and len: "length l = cells (array_base s) dims"
  shows "get_array h s name idx =
    (Inr (CHR ''$'', l ! nat (linear (array_base s) idx dims)), s)"
proof -
  from r(1) obtain K where k: "linear (array_base s) idx dims = int K"
    and lt: "K < cells (array_base s) dims" by (rule cell_obtain)
  have ix: "py_index l (int K) = Inr (l ! K)" using lt len by (simp add: py_index_nat)
  show ?thesis
    unfolding get_array_def
    by (simp add: check_dim_array_present [OF m r] index_array_in_range [OF r(1)] py_index_last
        nm k ix)
qed

lemma set_array_string:
  assumes m: "map_of (arrays s) name = Some (dims, StrList l)"
    and nm: "name \<noteq> []" "last name = CHR ''$''"
    and r: "in_range (array_base s) idx dims" "0 \<le> array_base s"
    and len: "length l = cells (array_base s) dims"
    and v: "pass_type_keep h (CHR ''$'') value = Inr v"
  shows "set_array h s name idx value =
    (None, store_payload s name dims (StrList (l[nat (linear (array_base s) idx dims) := snd v])))"
proof -
  from r(1) obtain K where k: "linear (array_base s) idx dims = int K"
    and lt: "K < cells (array_base s) dims" by (rule cell_obtain)
  have ix: "py_index l (int K) = Inr (l ! K)" using lt len by (simp add: py_index_nat)
  show ?thesis
    unfolding set_array_def
    by (simp add: check_dim_array_present [OF m r] index_array_in_range [OF r(1)] py_index_last
        nm k ix v)
qed

lemma array_len_cells:
  "array_len s dims = Inr (prod_list (map (\<lambda>d. d + 1 - array_base s) dims))"
  using linear_self [of "array_base s" dims]
  by (simp add: array_len_def index_array_def index_array_loop_linear)

lemma byte_size_sigil: "is_sigil c \<Longrightarrow> \<exists>n. byte_size c = Some n"
  by (auto simp: is_sigil_def byte_size_def)

lemma new_payload_fresh:
  assumes "name \<noteq> []" and "is_sigil (last name)"
    and "new_payload h name sz = Inr lst"
  shows "lst = fresh_payload name (nat sz)"
  using assms byte_size_sigil [OF assms(2)]
  by (auto simp: new_payload_def fresh_payload_def py_index_last var_size_bytes_def
      split: if_splits)

lemma dim_array_fresh:
  assumes nm: "name \<noteq> []" "is_sigil (last name)"
    and d: "dim_array h s0 name dims = (None, s)"
  shows "array_base s = array_base s0"
    and "map_of (arrays s) name = Some (dims, fresh_payload name (cells (array_base s0) dims))"
proof -
  from d obtain lst where np: "new_payload h name (prod_list (map (\<lambda>d. d + 1 - array_base s0) dims)) = Inr lst"
    and ar: "arrays s = AList.update name (dims, lst) (arrays s0)"
    and ab: "array_base s = array_base s0"
    by (auto simp: dim_array_def complete_name_sigil [OF nm(2)] array_len_cells Let_def
        split: if_splits option.splits sum.splits)
  show "array_base s = array_base s0" by (rule ab)
  from new_payload_fresh [OF nm np] ar
  show "map_of (arrays s) name = Some (dims, fresh_payload name (cells (array_base s0) dims))"
    by (simp add: AList.update_conv' cells_def)
qed

lemma array_ok_cases:
  assumes "array_ok s name dims"
  obtains (str) l where "map_of (arrays s) name = Some (dims, StrList l)"
      and "last name = CHR ''$''" and "length l = cells (array_base s) dims"
  | (num) b n where "map_of (arrays s) name = Some (dims, ByteArr b)"
      and "last name \<noteq> CHR ''$''" and "byte_size (last name) = Some n"
      and "length b = cells (array_base s) dims * n"
proof -
  from assms obtain lst where m: "map_of (arrays s) name = Some (dims, lst)"
    by (auto simp: array_ok_def split: option.splits)
  show ?thesis
  proof (cases lst)
    case (StrList l)
    with assms m str show ?thesis by (simp add: array_ok_def)
  next
    case (ByteArr b)
    with assms m num show ?thesis by (auto simp: array_ok_def split: option.splits)
  qed
qed

lemma array_ok_str:
  "map_of (arrays s) name = Some (dims, StrList l) \<Longrightarrow> last name = CHR ''$'' \<Longrightarrow>
   length l = cells (array_base s) dims \<Longrightarrow> array_ok s name dims"
  by (simp add: array_ok_def)

lemma array_ok_num:
  "map_of (arrays s) name = Some (dims, ByteArr b) \<Longrightarrow> last name \<noteq> CHR ''$'' \<Longrightarrow>
   byte_size (last name) = Some n \<Longrightarrow> length b = cells (array_base s) dims * n \<Longrightarrow>
   array_ok s name dims"
  by (simp add: array_ok_def)

lemma cell_fits:
  assumes "K < N" and "length b = N * n"
  shows "(K + 1) * n \<le> length b"
proof -
  from assms(1) have "Suc K \<le> N" by simp
  then have "Suc K * n \<le> N * n" by (rule mult_le_mono1)
  then show ?thesis using assms(2) by simp
qed

lemma length_cell_update:
  assumes "length v = n" and "(K + 1) * n \<le> length b"
  shows "length (take (K * n) b @ v @ drop ((K + 1) * n) b) = length b"
proof -
  from assms(2) have "K * n \<le> length b" by simp
  with assms show ?thesis by (simp add: min_absorb2)
qed

lemma set_array_step:
  assumes ok: "array_ok s name dims"
    and nm: "name \<noteq> []"
    and base: "0 \<le> array_base s"
    and r: "in_range (array_base s) idx dims"
    and w: "pass_type_keep h (last name) value = Inr v"
    and wl: "last name = CHR ''$'' \<or> byte_size (last name) = Some (length (snd v))"
  shows "array_ok (snd (set_array h s name idx value)) name dims
    \<and> array_base (snd (set_array h s name idx value)) = array_base s
    \<and> (\<forall>j. in_range (array_base s) j dims \<longrightarrow>
         fst (get_array h (snd (set_array h s name idx value)) name j) =
           (if j = idx then Inr (last name, snd v) else fst (get_array h s name j)))"
proof -
  let ?s' = "snd (set_array h s name idx value)"
  from r obtain K where k: "linear (array_base s) idx dims = int K"
    and lt: "K < cells (array_base s) dims" by (rule cell_obtain)
  from ok show ?thesis
  proof (cases rule: array_ok_cases)
    case (str l)
    from w str(2) have w': "pass_type_keep h (CHR ''$'') value = Inr v" by simp
    let ?l' = "l[K := snd v]"
    have s': "?s' = store_payload s name dims (StrList ?l')"
      by (simp add: set_array_string [OF str(1) nm str(2) r base str(3) w'] k)
    have m': "map_of (arrays ?s') name = Some (dims, StrList ?l')"
      by (simp add: s' map_of_store_payload)
    have b': "array_base ?s' = array_base s" by (simp add: s' array_base_store_payload)
    have len': "length ?l' = cells (array_base ?s') dims" by (simp add: b' str(3))
    have ok': "array_ok ?s' name dims" by (rule array_ok_str [OF m' str(2) len'])
    have "fst (get_array h ?s' name j) =
           (if j = idx then Inr (last name, snd v) else fst (get_array h s name j))"
      if rj: "in_range (array_base s) j dims" for j
    proof -
      from rj obtain J where j: "linear (array_base s) j dims = int J"
        and ltj: "J < cells (array_base s) dims" by (rule cell_obtain)
      have eq: "J = K \<longleftrightarrow> j = idx"
        using linear_inj [OF rj r] j k by auto
      from rj have rj': "in_range (array_base ?s') j dims" by (simp only: b')
      from base have base': "0 \<le> array_base ?s'" by (simp only: b')
      have g': "get_array h ?s' name j = (Inr (CHR ''$'', ?l' ! J), ?s')"
        using get_array_string [OF m' nm str(2) rj' base' len', of h] j by (simp add: b')
      have g: "get_array h s name j = (Inr (CHR ''$'', l ! J), s)"
        using get_array_string [OF str(1) nm str(2) rj base str(3), of h] j by simp
      show ?thesis
        using eq lt ltj str(3) by (auto simp add: g g' str(2) nth_list_update)
    qed
    with ok' b' show ?thesis by blast
  next
    case (num b n)
    from wl num have lv: "length (snd v) = n" by simp
    have fit: "(K + 1) * n \<le> length b" by (rule cell_fits [OF lt num(4)])
    let ?b' = "take (K * n) b @ snd v @ drop ((K + 1) * n) b"
    have s': "?s' = store_payload s name dims (ByteArr ?b')"
      by (simp add: set_array_numeric [OF num(1) nm num(2,3) r base num(4) w] k)
    have m': "map_of (arrays ?s') name = Some (dims, ByteArr ?b')"
      by (simp add: s' map_of_store_payload)
    have b': "array_base ?s' = array_base s" by (simp add: s' array_base_store_payload)
    have len': "length ?b' = cells (array_base ?s') dims * n"
      by (simp only: length_cell_update [OF lv fit] b' num(4))
    have ok': "array_ok ?s' name dims" by (rule array_ok_num [OF m' num(2,3) len'])
    have "fst (get_array h ?s' name j) =
           (if j = idx then Inr (last name, snd v) else fst (get_array h s name j))"
      if rj: "in_range (array_base s) j dims" for j
    proof -
      from rj obtain J where j: "linear (array_base s) j dims = int J"
        and ltj: "J < cells (array_base s) dims" by (rule cell_obtain)
      have eq: "J = K \<longleftrightarrow> j = idx"
        using linear_inj [OF rj r] j k by auto
      from rj have rj': "in_range (array_base ?s') j dims" by (simp only: b')
      from base have base': "0 \<le> array_base ?s'" by (simp only: b')
      have "get_array h ?s' name j =
          (Inr (last name, take n (drop (nat (linear (array_base ?s') j dims) * n) ?b')), ?s')"
        by (rule get_array_numeric [OF m' nm num(2,3) rj' base' len'])
      then have g': "get_array h ?s' name j = (Inr (last name, take n (drop (J * n) ?b')), ?s')"
        by (simp only: b' j nat_int)
      have "get_array h s name j =
          (Inr (last name, take n (drop (nat (linear (array_base s) j dims) * n) b)), s)"
        by (rule get_array_numeric [OF num(1) nm num(2,3) rj base num(4)])
      then have g: "get_array h s name j = (Inr (last name, take n (drop (J * n) b)), s)"
        by (simp only: j nat_int)
      have sl: "take n (drop (J * n) ?b') = (if J = K then snd v else take n (drop (J * n) b))"
        by (rule slice_of_update [OF lv fit])
      show ?thesis
        using eq by (simp only: g g' fst_conv sl) simp
    qed
    with ok' b' show ?thesis by blast
  qed
qed

lemma set_arrays_read:
  assumes nm: "name \<noteq> []"
  shows "array_ok s name dims \<Longrightarrow> 0 \<le> array_base s \<Longrightarrow>
    \<forall>(i, value) \<in> set ws. in_range (array_base s) i dims \<and> writable h (last name) value \<Longrightarrow>
    in_range (array_base s) idx dims \<Longrightarrow>
    fst (get_array h (set_arrays h s name ws) name idx) =
      (case last_written h (last name) idx ws of
         Some b \<Rightarrow> Inr (last name, b)
       | None \<Rightarrow> fst (get_array h s name idx))"
proof (induction ws arbitrary: s)
  case Nil
  then show ?case by simp
next
  case (Cons w ws)
  obtain i "value" where w: "w = (i, value)" by (cases w)
  let ?s' = "snd (set_array h s name i value)"
  from Cons.prems(3) w have ri: "in_range (array_base s) i dims"
    and wr: "writable h (last name) value" by auto
  from wr obtain v where v: "pass_type_keep h (last name) value = Inr v"
    and vl: "last name = CHR ''$'' \<or> byte_size (last name) = Some (length (snd v))"
    by (auto simp: writable_def split: sum.splits)
  note step = set_array_step [OF Cons.prems(1) nm Cons.prems(2) ri v vl]
  from step have ok': "array_ok ?s' name dims" and b': "array_base ?s' = array_base s"
    and rd: "fst (get_array h ?s' name idx) =
           (if idx = i then Inr (last name, snd v) else fst (get_array h s name idx))"
    using Cons.prems(4) by blast+
  have ih: "fst (get_array h (set_arrays h ?s' name ws) name idx) =
      (case last_written h (last name) idx ws of
         Some b \<Rightarrow> Inr (last name, b)
       | None \<Rightarrow> fst (get_array h ?s' name idx))"
    using Cons.prems by (intro Cons.IH [OF ok']) (auto simp: b')
  have unf: "set_arrays h s name (w # ws) = set_arrays h ?s' name ws" by (simp add: w)
  show ?case
  proof (cases "last_written h (last name) idx ws")
    case None
    have "fst (get_array h (set_arrays h ?s' name ws) name idx) = fst (get_array h ?s' name idx)"
      by (simp only: ih None option.case)
    also have "\<dots> = (if idx = i then Inr (last name, snd v) else fst (get_array h s name idx))"
      by (rule rd)
    finally show ?thesis by (simp add: unf w None v)
  next
    case (Some b)
    with ih show ?thesis by (simp add: unf w)
  qed
qed

lemma fresh_array:
  assumes nm: "name \<noteq> []" "is_sigil (last name)"
    and base: "0 \<le> array_base s0"
    and d: "dim_array h s0 name dims = (None, s)"
  shows "array_ok s name dims"
    and "in_range (array_base s0) idx dims \<Longrightarrow> fst (get_array h s name idx) = null (last name)"
proof -
  note f = dim_array_fresh [OF nm d]
  from byte_size_sigil [OF nm(2)] obtain n where n: "byte_size (last name) = Some n" by blast
  let ?N = "cells (array_base s0) dims"
  show ok: "array_ok s name dims"
    using f n by (simp add: array_ok_def fresh_payload_def)
  assume r: "in_range (array_base s0) idx dims"
  then obtain K where k: "linear (array_base s0) idx dims = int K" and lt: "K < ?N"
    by (rule cell_obtain)
  from r have r': "in_range (array_base s) idx dims" by (simp only: f(1))
  from base have base': "0 \<le> array_base s" by (simp only: f(1))
  show "fst (get_array h s name idx) = null (last name)"
  proof (cases "last name = CHR ''$''")
    case True
    with f have m: "map_of (arrays s) name = Some (dims, StrList (replicate ?N []))"
      by (simp add: fresh_payload_def)
    have "get_array h s name idx =
        (Inr (CHR ''$'', replicate ?N [] ! nat (linear (array_base s) idx dims)), s)"
      by (rule get_array_string [OF m nm(1) True r' base']) (simp add: f(1))
    then show ?thesis using lt True by (simp add: f(1) k null_def)
  next
    case False
    with f n have m: "map_of (arrays s) name = Some (dims, ByteArr (replicate (?N * n) 0))"
      by (simp add: fresh_payload_def)
    have fit: "(K + 1) * n \<le> ?N * n"
      using cell_fits [OF lt, of "replicate (?N * n) (0::nat)" n] by simp
    then have le: "n \<le> ?N * n - K * n" by simp
    have "get_array h s name idx =
        (Inr (last name, take n (drop (nat (linear (array_base s) idx dims) * n)
            (replicate (?N * n) 0))), s)"
      by (rule get_array_numeric [OF m nm(1) False n r' base']) (simp add: f(1))
    then show ?thesis using le False n by (simp add: f(1) k null_def min_absorb1)
  qed
qed

text \<open>
  C1. Let an array with a completed name be dimensioned by \<open>dim_array\<close>, and let a run
  of \<open>set_array\<close> calls write in-range cells of it. Reading an in-range cell then
  returns the bytes (numeric array) or the string (string array) that the last write to
  this very cell stored, and the zero value of the type when no write of the run named
  the cell.
\<close>

theorem array_read_last_written:
  assumes "name \<noteq> []" and "is_sigil (last name)"
    and "0 \<le> array_base s0"
    and "dim_array h s0 name dims = (None, s)"
    and "\<forall>(i, value) \<in> set ws. in_range (array_base s0) i dims \<and> writable h (last name) value"
    and "in_range (array_base s0) idx dims"
  shows "fst (get_array h (set_arrays h s name ws) name idx) =
      (case last_written h (last name) idx ws of
         Some b \<Rightarrow> Inr (last name, b)
       | None \<Rightarrow> null (last name))"
proof -
  have b: "array_base s = array_base s0" by (rule dim_array_fresh(1) [OF assms(1,2,4)])
  have "fst (get_array h (set_arrays h s name ws) name idx) =
      (case last_written h (last name) idx ws of
         Some b \<Rightarrow> Inr (last name, b)
       | None \<Rightarrow> fst (get_array h s name idx))"
    using assms(3,5,6) by (intro set_arrays_read [OF assms(1) fresh_array(1) [OF assms(1-4)] ])
      (simp_all only: b)
  then show ?thesis by (simp only: fresh_array(2) [OF assms(1-4,6)])
qed

lemma in_range_eval [simp]:
  "in_range b [] [] = True"
  "in_range b (i # is) (d # ds) = (b \<le> i \<and> i \<le> d \<and> in_range b is ds)"
  by (simp_all add: in_range_def)

theorem array_read_last_written_witness:
  "fst (get_array roomy_host
          (set_arrays roomy_host (snd (dim_array roomy_host clear_variables ''A%'' [2, 3])) ''A%''
             [([2, 3], (CHR ''%'', [7, 0])), ([0, 0], (CHR ''%'', [1, 0])),
              ([2, 3], (CHR ''%'', [9, 0]))])
          ''A%'' [2, 3]) = Inr (CHR ''%'', [9, 0])
   \<and> fst (get_array roomy_host
          (set_arrays roomy_host (snd (dim_array roomy_host clear_variables ''A%'' [2, 3])) ''A%''
             [([2, 3], (CHR ''%'', [7, 0])), ([0, 0], (CHR ''%'', [1, 0])),
              ([2, 3], (CHR ''%'', [9, 0]))])
          ''A%'' [1, 1]) = Inr (CHR ''%'', [0, 0])"
proof -
  let ?ws = "[([2, 3], (CHR ''%'', [7, 0])), ([0, 0], (CHR ''%'', [1, 0])),
              ([2, 3], (CHR ''%'', [9::nat, 0]))] :: (int list \<times> val) list"
  have b: "array_base clear_variables = 0" by (simp add: clear_variables_def)
  have d0: "fst (dim_array roomy_host clear_variables ''A%'' [2, 3]) = None"
    by (simp add: dim_array_def complete_name_def is_sigil_def clear_variables_def
        array_len_def index_array_def new_payload_def py_index_def var_size_bytes_def
        byte_size_def roomy_host_def array_size_bytes_def Let_def AList.update_conv')
  have d: "dim_array roomy_host clear_variables ''A%'' [2, 3] =
      (None, snd (dim_array roomy_host clear_variables ''A%'' [2, 3]))"
    using d0 by (metis prod.collapse)
  have w: "\<forall>(i, value) \<in> set ?ws. in_range (array_base clear_variables) i [2, 3]
      \<and> writable roomy_host (last ''A%'') value"
    by (simp add: b writable_def pass_type_keep_def byte_size_def)
  have n: "null (last ''A%'') = Inr (CHR ''%'', [0, 0])"
    by (simp add: null_def byte_size_def numeral_2_eq_2)
  have l1: "last_written roomy_host (last ''A%'') [2, 3] ?ws = Some [9, 0]"
    by (simp add: pass_type_keep_def)
  have l2: "last_written roomy_host (last ''A%'') [1, 1] ?ws = None"
    by simp
  have "fst (get_array roomy_host
          (set_arrays roomy_host (snd (dim_array roomy_host clear_variables ''A%'' [2, 3])) ''A%'' ?ws)
          ''A%'' [2, 3]) = Inr (CHR ''%'', [9, 0])"
    using array_read_last_written [OF _ _ _ d w, of "[2, 3]"] l1
    by (simp add: is_sigil_def b)
  moreover have "fst (get_array roomy_host
          (set_arrays roomy_host (snd (dim_array roomy_host clear_variables ''A%'' [2, 3])) ''A%'' ?ws)
          ''A%'' [1, 1]) = Inr (CHR ''%'', [0, 0])"
    using array_read_last_written [OF _ _ _ d w, of "[1, 1]"] l2 n
    by (simp add: is_sigil_def b)
  ultimately show ?thesis by simp
qed

subsection \<open>Auto-dimensioning\<close>

lemma new_payload_sigil:
  assumes "name \<noteq> []" and "is_sigil (last name)"
    and "new_payload h name sz \<noteq> Inl (RunError 7)"
  shows "new_payload h name sz = Inr (fresh_payload name (nat sz))"
  using assms byte_size_sigil [OF assms(2)]
  by (auto simp: new_payload_def fresh_payload_def py_index_last var_size_bytes_def
      split: if_splits)

lemma array_size_bytes_ok:
  assumes "name \<noteq> []" and "is_sigil (last name)"
  shows "\<exists>n. array_size_bytes s name = Inr n"
  using byte_size_sigil [OF assms(2)] assms(1)
  by (auto simp: array_size_bytes_def array_len_cells var_size_bytes_def py_index_last
      split: option.splits)

lemma dim_array_succeeds:
  assumes nm: "name \<noteq> []" "is_sigil (last name)"
    and un: "map_of (arrays s) name = None"
    and cd: "check_dimensions (array_base s) dims = None"
    and mem: "new_payload h name (prod_list (map (\<lambda>d. d + 1 - array_base s) dims)) \<noteq> Inl (RunError 7)"
  shows "fst (dim_array h s name dims) = None"
proof -
  let ?s1 = "s\<lparr>arrays := AList.update name
      (dims, fresh_payload name (nat (prod_list (map (\<lambda>d. d + 1 - array_base s) dims)))) (arrays s)\<rparr>"
  from array_size_bytes_ok [OF nm, of ?s1] obtain n where n: "array_size_bytes ?s1 name = Inr n"
    by blast
  show ?thesis
    by (simp add: dim_array_def complete_name_sigil [OF nm(2)] un cd array_len_cells
        new_payload_sigil [OF nm mem] Let_def n)
qed

lemma dim_array_duplicate:
  assumes "is_sigil (last name)" and "map_of (arrays s) name = Some x"
  shows "dim_array h s name dims = (Some (RunError 10), s)"
  using assms by (simp add: dim_array_def complete_name_sigil)

lemma check_dimensions_tens:
  "b = 0 \<or> b = 1 \<Longrightarrow> check_dimensions b (replicate k 10) = None"
  by (induction k) auto

lemma prod_tens: "prod_list (map (\<lambda>d. d + 1 - b) (replicate k 10)) = (11 - b) ^ k"
  by (induction k) simp_all

lemma check_bounds_state: "snd (check_bounds s index dims lst) = s"
  by (simp add: check_bounds_def split: option.splits)

lemma get_array_state: "snd (get_array h s name index) = snd (check_dim_array h s name index)"
  by (simp add: get_array_def split: prod.splits sum.splits payload.splits)

lemma check_index_out_of_range:
  "length is = length ds \<Longrightarrow> \<forall>i \<in> set is. 0 \<le> i \<Longrightarrow> \<not> in_range b is ds \<Longrightarrow>
   check_index b is ds = Some (RunError 9)"
proof (induction b "is" ds rule: check_index.induct)
  case (3 b i "is" d ds)
  then show ?case by (auto simp: in_range_def)
qed (simp_all add: in_range_def)

lemma set_array_keeps_dimensions:
  assumes "check_dim_array h s name index = (r, t)"
    and "map_of (arrays t) name = Some (dims, lst)"
    and "\<And>d l. r = Inr (d, l) \<Longrightarrow> d = dims"
  shows "\<exists>lst'. map_of (arrays (snd (set_array h s name index value))) name = Some (dims, lst')"
proof (cases r)
  case (Inl e)
  with assms show ?thesis by (simp add: set_array_def)
next
  case (Inr p)
  obtain d l where p: "p = (d, l)" by (cases p)
  with Inr assms(3) have d: "d = dims" by simp
  show ?thesis
    using assms(1,2)
    by (auto simp: set_array_def Inr p d map_of_store_payload
        split: sum.splits payload.splits)
qed

text \<open>
  C10. An access, read or write, to an array that does not exist, with \<open>k\<close> indices,
  first dimensions the array with maximum index 10 on each of \<open>k\<close> axes, whatever the
  indices are. The state left by the access holds that array. When the indices are not in
  range (none of them negative), Subscript Out of Range (9) is raised from that state, and
  a later \<open>dim_array\<close> of the name raises Duplicate Definition (10). The name is a
  completed name, the array base is 0 or 1, and the host can allocate the payload.
\<close>

theorem auto_dimension_before_error:
  assumes nm: "name \<noteq> []" "is_sigil (last name)"
    and un: "map_of (arrays s) name = None"
    and base: "array_base s = 0 \<or> array_base s = 1"
    and mem: "new_payload h name ((11 - array_base s) ^ length index) \<noteq> Inl (RunError 7)"
  shows "\<exists>t lst.
      dim_array h s name (replicate (length index) 10) = (None, t)
    \<and> map_of (arrays t) name = Some (replicate (length index) 10, lst)
    \<and> snd (get_array h s name index) = t
    \<and> (\<exists>lst'. map_of (arrays (snd (set_array h s name index value))) name =
                 Some (replicate (length index) 10, lst'))
    \<and> ((\<forall>i \<in> set index. 0 \<le> i) \<and> \<not> in_range (array_base s) index (replicate (length index) 10)
         \<longrightarrow> get_array h s name index = (Inl (RunError 9), t)
           \<and> set_array h s name index value = (Some (RunError 9), t))
    \<and> (\<forall>dims. dim_array h t name dims = (Some (RunError 10), t))"
proof -
  let ?tens = "replicate (length index) (10::int)"
  let ?lst = "fresh_payload name (cells (array_base s) ?tens)"
  have mem': "new_payload h name (prod_list (map (\<lambda>d. d + 1 - array_base s) ?tens))
      \<noteq> Inl (RunError 7)" by (subst prod_tens) (rule mem)
  have "fst (dim_array h s name ?tens) = None"
    by (rule dim_array_succeeds [OF nm un check_dimensions_tens [OF base] mem'])
  then obtain t where d: "dim_array h s name ?tens = (None, t)"
    by (cases "dim_array h s name ?tens") simp
  note f = dim_array_fresh [OF nm d]
  have cda: "check_dim_array h s name index = check_bounds t index ?tens ?lst"
    by (simp add: check_dim_array_def un d f(2))
  have st: "snd (check_dim_array h s name index) = t"
    by (simp only: cda check_bounds_state)
  have g: "snd (get_array h s name index) = t"
    by (simp only: get_array_state st)
  have keep: "\<exists>lst'. map_of (arrays (snd (set_array h s name index value))) name = Some (?tens, lst')"
  proof (rule set_array_keeps_dimensions [OF _ f(2)])
    show "check_dim_array h s name index = (fst (check_dim_array h s name index), t)"
      using st by (metis prod.collapse)
    show "d = ?tens" if "fst (check_dim_array h s name index) = Inr (d, l)" for d l
      using that by (auto simp: cda check_bounds_def split: if_splits option.splits)
  qed
  have err: "get_array h s name index = (Inl (RunError 9), t)
      \<and> set_array h s name index value = (Some (RunError 9), t)"
    if "\<forall>i \<in> set index. 0 \<le> i" and "\<not> in_range (array_base s) index ?tens"
  proof -
    have "check_index (array_base t) index ?tens = Some (RunError 9)"
      using that by (intro check_index_out_of_range) (simp_all add: f(1))
    then have "check_dim_array h s name index = (Inl (RunError 9), t)"
      by (simp add: cda check_bounds_def)
    then show ?thesis by (simp add: get_array_def set_array_def)
  qed
  have dup: "dim_array h t name dims = (Some (RunError 10), t)" for dims
    by (rule dim_array_duplicate [OF nm(2) f(2)])
  from d f(2) g keep err dup show ?thesis by blast
qed

theorem auto_dimension_before_error_witness:
  "get_array roomy_host clear_variables ''B!'' [11] =
     (Inl (RunError 9), snd (dim_array roomy_host clear_variables ''B!'' [10]))
   \<and> map_of (arrays (snd (dim_array roomy_host clear_variables ''B!'' [10]))) ''B!'' =
       Some ([10], ByteArr (replicate 44 0))
   \<and> dim_array roomy_host (snd (get_array roomy_host clear_variables ''B!'' [11])) ''B!'' [20] =
       (Some (RunError 10), snd (dim_array roomy_host clear_variables ''B!'' [10]))"
proof -
  have un: "map_of (arrays clear_variables) ''B!'' = None" by (simp add: clear_variables_def)
  have b: "array_base clear_variables = 0" by (simp add: clear_variables_def)
  have mem: "new_payload roomy_host ''B!'' ((11 - array_base clear_variables) ^ length [11::int])
      \<noteq> Inl (RunError 7)"
    by (simp add: new_payload_def py_index_def var_size_bytes_def byte_size_def roomy_host_def)
  have fp: "fresh_payload ''B!'' (cells 0 [10]) = ByteArr (replicate 44 0)"
    by (simp add: fresh_payload_def cells_def byte_size_def)
  from auto_dimension_before_error [OF _ _ un _ mem, of "(CHR ''!'', [0, 0, 0, 0])"]
  obtain t lst where t: "dim_array roomy_host clear_variables ''B!'' [10] = (None, t)"
    and m: "map_of (arrays t) ''B!'' = Some ([10], lst)"
    and g: "snd (get_array roomy_host clear_variables ''B!'' [11]) = t"
    and e: "get_array roomy_host clear_variables ''B!'' [11] = (Inl (RunError 9), t)"
    and dup: "dim_array roomy_host t ''B!'' [20] = (Some (RunError 10), t)"
    by (auto simp: is_sigil_def b)
  from dim_array_fresh(2) [OF _ _ t] m have "lst = ByteArr (replicate 44 0)"
    by (simp add: is_sigil_def b fp)
  with t m g e dup show ?thesis by simp
qed

subsection \<open>The record of a scalar in simulated memory\<close>

lemma scalar_memory_single_name:
  assumes "var_memory s = [(name, np, vp, sp)]" and "0 \<le> np" and "np \<le> a" and "a < vp"
  shows "scalar_memory s a = get_name_in_memory name (a - np)"
  using assms by (simp add: scalar_memory_def)

lemma scalar_memory_single_numeric:
  assumes "var_memory s = [(name, np, vp, sp)]" and "0 \<le> np" and "np \<le> vp"
    and "name \<noteq> []" and "last name \<noteq> CHR ''$''" and "byte_size (last name) = Some bs"
    and "map_of (variables s) name = Some p" and "k < bs" and "k < length p"
  shows "scalar_memory s (vp + int k) = Inr (int (p ! k))"
  using assms by (simp add: scalar_memory_def py_index_last py_index_nat)

lemma scalar_memory_single_string:
  assumes "var_memory s = [(name, np, vp, sp)]" and "0 \<le> np" and "np \<le> vp"
    and "name \<noteq> []" and "last name = CHR ''$''"
    and "map_of (variables s) name = Some p" and "length p < 256" and "k < 3"
  shows "scalar_memory s (vp + int k) = Inr (int ((length p # value_to_uint sp) ! k))"
  using assms
  by (simp add: scalar_memory_def py_index_last byte_size_def py_index_nat value_to_uint_def)

lemma set_var_fresh_numeric:
  assumes nm: "name \<noteq> []" "is_sigil (last name)" "last name \<noteq> CHR ''$''"
    and bs: "byte_size (last name) = Some bs"
    and em: "var_memory s0 = []"
    and sv: "set_var h s0 name value = (None, s)"
  shows "\<exists>v. pass_type_keep h (last name) value = Inr v
    \<and> var_memory s = [(name, var_current s0, var_current s0 + int (max 3 (length name)) + 1, - 1)]
    \<and> var_current s = var_current s0 + int (max 3 (length name)) + 1 + int bs
    \<and> map_of (variables s) name = Some (snd v)"
  using sv
  by (auto simp: set_var_def complete_name_sigil [OF nm(2)] py_index_last nm set_var_memory_def
      em bs Let_def AList.update_conv' split: sum.splits)

lemma set_var_fresh_string:
  assumes nm: "name \<noteq> []" "last name = CHR ''$''"
    and em: "var_memory s0 = []"
    and sv: "set_var h s0 name value = (None, s)"
  shows "fst value = CHR ''$''
    \<and> var_memory s = [(name, var_current s0, var_current s0 + int (max 3 (length name)) + 1,
          string_current s0 - int (length (take 255 (snd value))) + 1)]
    \<and> var_current s = var_current s0 + int (max 3 (length name)) + 1 + 3
    \<and> map_of (variables s) name = Some (take 255 (snd value))"
proof -
  have sg: "is_sigil (last name)" using nm(2) by (simp add: is_sigil_def)
  have tk: "(if 255 < length u then take 255 u else u) = take 255 u" for u :: bytes
    by simp
  show ?thesis
    using sv
    by (auto simp: set_var_def complete_name_sigil [OF sg] py_index_last nm set_var_memory_def
        em byte_size_def Let_def AList.update_conv' pass_string_unpack_def tk
        simp del: length_take split: sum.splits if_splits)
qed

lemma name_header_bytes:
  assumes "name \<noteq> []" and "byte_size (last name) = Some bs"
  shows "get_name_in_memory name 0 = Inr (int bs)"
    and "get_name_in_memory name 1 = Inr (ord (upper (hd name)))"
    and "get_name_in_memory name 2 = Inr (if 2 < length name then ord (upper (name ! 1)) else 0)"
    and "get_name_in_memory name 3 = Inr (if 3 < length name then int (length name) - 3 else 0)"
proof -
  show "get_name_in_memory name 0 = Inr (int bs)"
    using assms by (simp add: get_name_in_memory_def py_index_last)
  have "py_index name 0 = Inr (hd name)"
    using assms(1) py_index_nat [of 0 name] by (simp add: hd_conv_nth)
  then show "get_name_in_memory name 1 = Inr (ord (upper (hd name)))"
    by (simp add: get_name_in_memory_def)
  have "py_index name 1 = Inr (name ! 1)" if "2 < length name"
    using that py_index_nat [of 1 name] by simp
  then show "get_name_in_memory name 2 = Inr (if 2 < length name then ord (upper (name ! 1)) else 0)"
    by (simp add: get_name_in_memory_def)
  show "get_name_in_memory name 3 = Inr (if 3 < length name then int (length name) - 3 else 0)"
    by (simp add: get_name_in_memory_def)
qed

lemma header_reads:
  assumes vm: "var_memory s = [(name, np, np + int (max 3 (length name)) + 1, sp)]"
    and np: "0 \<le> np"
    and vc: "var_current s = np + int (max 3 (length name)) + 1 + int bs"
    and nm: "name \<noteq> []" and bs: "byte_size (last name) = Some bs"
  shows "get_var_memory s np = Inr (int bs)"
    and "get_var_memory s (np + 1) = Inr (ord (upper (hd name)))"
    and "get_var_memory s (np + 2) = Inr (if 2 < length name then ord (upper (name ! 1)) else 0)"
    and "get_var_memory s (np + 3) = Inr (if 3 < length name then int (length name) - 3 else 0)"
proof -
  have g: "get_var_memory s (np + int k) = get_name_in_memory name (int k)" if "k < 4" for k
  proof -
    have lt: "np + int k < np + int (max 3 (length name)) + 1" using that by simp
    then have "np + int k < var_current s" by (simp add: vc)
    then have "get_var_memory s (np + int k) = scalar_memory s (np + int k)"
      by (simp add: get_var_memory_def)
    also have "\<dots> = get_name_in_memory name (np + int k - np)"
      by (rule scalar_memory_single_name [OF vm np _ lt]) simp
    finally show ?thesis by simp
  qed
  note h = name_header_bytes [OF nm bs]
  from g [of 0] h(1) show "get_var_memory s np = Inr (int bs)" by simp
  from g [of 1] h(2) show "get_var_memory s (np + 1) = Inr (ord (upper (hd name)))" by simp
  from g [of 2] h(3)
  show "get_var_memory s (np + 2) = Inr (if 2 < length name then ord (upper (name ! 1)) else 0)"
    by simp
  from g [of 3] h(4)
  show "get_var_memory s (np + 3) = Inr (if 3 < length name then int (length name) - 3 else 0)"
    by simp
qed

lemma get_var_ptr_scalar:
  assumes "is_sigil (last name)" and "var_memory s = [(name, np, vp, sp)]"
  shows "get_var_ptr s name [] = Inr vp"
  using assms by (simp add: get_var_ptr_def complete_name_sigil)

text \<open>
  C2, as the code has it. Let a scalar with a completed name be stored by \<open>set_var\<close>
  into a store whose simulated memory holds no scalar yet. Its record starts at the old
  \<open>var_current\<close> and reads, in order of increasing address: the size-in-bytes byte,
  name byte 1, name byte 2 (0 if the name has no second character), the remaining-length
  byte (0 if the name has at most two characters). The value bytes start at the address
  that \<open>get_var_ptr\<close> returns, \<open>max(3, len(name)) + 1\<close> bytes after the start of the
  record: the bytes of the number, or the length of the string and its pointer as an
  unsigned 16-bit little-endian pair.
\<close>

theorem scalar_record_layout:
  assumes nm: "name \<noteq> []" "is_sigil (last name)"
    and em: "var_memory s0 = []"
    and pos: "0 \<le> var_current s0"
    and sv: "set_var h s0 name value = (None, s)"
  shows "\<exists>bs p.
      byte_size (last name) = Some bs \<and> map_of (variables s) name = Some p
    \<and> get_var_memory s (var_current s0) = Inr (int bs)
    \<and> get_var_memory s (var_current s0 + 1) = Inr (ord (upper (hd name)))
    \<and> get_var_memory s (var_current s0 + 2) =
        Inr (if 2 < length name then ord (upper (name ! 1)) else 0)
    \<and> get_var_memory s (var_current s0 + 3) =
        Inr (if 3 < length name then int (length name) - 3 else 0)
    \<and> get_var_ptr s name [] = Inr (var_current s0 + int (max 3 (length name)) + 1)
    \<and> (last name \<noteq> CHR ''$'' \<longrightarrow>
         (\<exists>c. pass_type_keep h (last name) value = Inr (c, p))
         \<and> (\<forall>k. k < bs \<and> k < length p \<longrightarrow>
               get_var_memory s (var_current s0 + int (max 3 (length name)) + 1 + int k) =
                 Inr (int (p ! k))))
    \<and> (last name = CHR ''$'' \<longrightarrow>
         p = take 255 (snd value)
         \<and> (\<forall>k. k < 3 \<longrightarrow>
               get_var_memory s (var_current s0 + int (max 3 (length name)) + 1 + int k) =
                 Inr (int ((length p # value_to_uint (string_current s0 - int (length p) + 1)) ! k))))"
proof -
  let ?np = "var_current s0"
  let ?vp = "?np + int (max 3 (length name)) + 1"
  from byte_size_sigil [OF nm(2)] obtain bs where bs: "byte_size (last name) = Some bs" by blast
  show ?thesis
  proof (cases "last name = CHR ''$''")
    case True
    with bs have bs3: "bs = 3" by (simp add: byte_size_def)
    let ?p = "take 255 (snd value)"
    let ?sp = "string_current s0 - int (length ?p) + 1"
    from set_var_fresh_string [OF nm(1) True em sv]
    have vm: "var_memory s = [(name, ?np, ?vp, ?sp)]"
      and vc: "var_current s = ?vp + int bs"
      and va: "map_of (variables s) name = Some ?p"
      by (simp_all add: bs3 del: length_take)
    note hd = header_reads [OF vm pos vc nm(1) bs]
    have lp: "length ?p < 256" by simp
    have rd: "get_var_memory s (?vp + int k) = Inr (int ((length ?p # value_to_uint ?sp) ! k))"
      if "k < 3" for k
    proof -
      have "?vp + int k < var_current s" using that by (simp add: vc bs3)
      then have "get_var_memory s (?vp + int k) = scalar_memory s (?vp + int k)"
        by (simp add: get_var_memory_def)
      also have "\<dots> = Inr (int ((length ?p # value_to_uint ?sp) ! k))"
        by (rule scalar_memory_single_string [OF vm pos _ nm(1) True va lp that]) simp
      finally show ?thesis .
    qed
    from bs va hd get_var_ptr_scalar [OF nm(2) vm] rd True show ?thesis by blast
  next
    case False
    from set_var_fresh_numeric [OF nm False bs em sv] obtain v where
      v: "pass_type_keep h (last name) value = Inr v"
      and vm: "var_memory s = [(name, ?np, ?vp, - 1)]"
      and vc: "var_current s = ?vp + int bs"
      and va: "map_of (variables s) name = Some (snd v)"
      by blast
    note hd = header_reads [OF vm pos vc nm(1) bs]
    have rd: "get_var_memory s (?vp + int k) = Inr (int (snd v ! k))"
      if "k < bs" "k < length (snd v)" for k
    proof -
      have "?vp + int k < var_current s" using that by (simp add: vc)
      then have "get_var_memory s (?vp + int k) = scalar_memory s (?vp + int k)"
        by (simp add: get_var_memory_def)
      also have "\<dots> = Inr (int (snd v ! k))"
        by (rule scalar_memory_single_numeric [OF vm pos _ nm(1) False bs va that]) simp
      finally show ?thesis .
    qed
    from v have v': "\<exists>c. pass_type_keep h (last name) value = Inr (c, snd v)"
      by (cases v) simp
    from bs va hd get_var_ptr_scalar [OF nm(2) vm] rd False v' show ?thesis
      by blast
  qed
qed

lemma set_var_AB:
  "set_var roomy_host clear_variables ''AB$'' (CHR ''$'', [72, 73]) =
     (None, clear_variables\<lparr>variables := [(''AB$'', [72, 73])], var_current := 4727,
        string_current := 65018, var_memory := [(''AB$'', 4720, 4724, 65019)]\<rparr>)"
  by (simp add: set_var_def set_var_memory_def complete_name_def is_sigil_def py_index_def
      pass_string_unpack_def clear_variables_def byte_size_def var_mem_start_def total_mem_def
      Let_def)

theorem scalar_record_layout_witness:
  "(let s = snd (set_var roomy_host clear_variables ''AB$'' (CHR ''$'', [72, 73]))
    in map (get_var_memory s) [4720, 4721, 4722, 4723, 4724, 4725, 4726]
       = [Inr 3, Inr 65, Inr 66, Inr 0, Inr 2, Inr 251, Inr 253]
     \<and> get_var_ptr s ''AB$'' [] = Inr 4724)"
proof -
  let ?s = "snd (set_var roomy_host clear_variables ''AB$'' (CHR ''$'', [72, 73]))"
  have sv: "set_var roomy_host clear_variables ''AB$'' (CHR ''$'', [72, 73]) = (None, ?s)"
    by (simp add: set_var_AB)
  have em: "var_memory clear_variables = []" by (simp add: clear_variables_def)
  have vc: "var_current clear_variables = 4720"
    by (simp add: clear_variables_def var_mem_start_def)
  have sc: "string_current clear_variables = 65020"
    by (simp add: clear_variables_def var_mem_start_def total_mem_def)
  have up: "upper (CHR ''A'') = CHR ''A''" "upper (CHR ''B'') = CHR ''B''"
    by (simp_all add: upper_def)
  have u: "value_to_uint 65019 = [251, 253]" by (simp add: value_to_uint_def)
  from scalar_record_layout [OF _ _ em _ sv]
  obtain bs p where bs: "byte_size (CHR ''$'') = Some bs"
    and h: "get_var_memory ?s 4720 = Inr (int bs)"
      "get_var_memory ?s 4721 = Inr 65" "get_var_memory ?s 4722 = Inr 66"
      "get_var_memory ?s 4723 = Inr 0" "get_var_ptr ?s ''AB$'' [] = Inr 4724"
    and p: "p = [72, 73::nat]"
    and v: "\<forall>k<3. get_var_memory ?s (4724 + int k) =
        Inr (int ((length p # value_to_uint (65020 - int (length p) + 1)) ! k))"
    by (auto simp: is_sigil_def vc sc up ord_def)
  from bs have bs3: "bs = 3" by (simp add: byte_size_def)
  from v [rule_format, of 0] v [rule_format, of 1] v [rule_format, of 2] p u
  have "get_var_memory ?s 4724 = Inr 2" "get_var_memory ?s 4725 = Inr 251"
    "get_var_memory ?s 4726 = Inr 253" by simp_all
  with h bs3 show ?thesis by (simp add: Let_def)
qed

text \<open>
  C2 as the spec words it puts the size byte fourth, after the three name bytes. For
  \<open>A!\<close> the record starts with the size byte 4, followed by the letter A (65); the
  fourth byte is the remaining length 0, not the size.
\<close>

theorem scalar_record_order_counterexample:
  "(let s = snd (set_var roomy_host clear_variables ''A!'' (CHR ''!'', [1, 2, 3, 4]))
    in get_var_memory s 4720 = Inr 4 \<and> get_var_memory s 4721 = Inr 65
     \<and> get_var_memory s 4723 = Inr 0)"
  by (simp add: set_var_def set_var_memory_def complete_name_def is_sigil_def py_index_def
      pass_type_keep_def clear_variables_def byte_size_def var_mem_start_def total_mem_def
      Let_def get_var_memory_def scalar_memory_def get_name_in_memory_def upper_def ord_def)

subsection \<open>Statement terminators and side effects\<close>

lemma dict_display_Nil: "dict_display [] k = None"
  by (simp add: dict_display_def)

lemma dict_display_Cons:
  "dict_display ((k', v) # xs) k =
     (case dict_display xs k of Some w \<Rightarrow> Some w | None \<Rightarrow> if k = k' then Some v else None)"
  by (simp add: dict_display_def map_add_def split: option.splits)

lemma dict_display_append:
  "dict_display (xs @ ys) k =
     (case dict_display ys k of Some w \<Rightarrow> Some w | None \<Rightarrow> dict_display xs k)"
  by (simp add: dict_display_def map_add_def split: option.splits)

lemma table_claimed:
  "dict_display statement_table (Tok ''END'') = Some (Exec_after_end ''session.end_'')"
  "dict_display statement_table (Tok ''STOP'') = Some (Exec_after_end ''session.interpreter.stop_'')"
  "dict_display statement_table (Tok ''SYSTEM'') = Some (Exec_after_end ''session.interpreter.system_'')"
  "dict_display statement_table (Tok ''NEW'') = Some (Exec_after_end ''session.new_'')"
  "dict_display statement_table (Tok ''WEND'') = Some (Exec_after_end ''session.interpreter.wend_'')"
  "dict_display statement_table (Tok ''TRON'') = Some (Exec_immediate ''session.interpreter.tron_'')"
  "dict_display statement_table (Tok ''TROFF'') = Some (Exec_immediate ''session.interpreter.troff_'')"
  "dict_display statement_table (Tok ''CONT'') = Some (Exec_immediate ''session.interpreter.cont_'')"
  "dict_display statement_table (Tok ''RESET'') = Some (Exec_immediate ''session.files.reset_'')"
  by code_simp+

lemma statements_base:
  assumes "dict_display pcjr_tandy_table k = None"
  shows "statements dialect k = dict_display statement_table k"
  using assms
  by (simp add: statements_def dict_display_append dict_display_Nil split: option.splits)

lemma not_pcjr_tandy:
  "t \<noteq> ''TERM'' \<Longrightarrow> t \<noteq> ''NOISE'' \<Longrightarrow> dict_display pcjr_tandy_table (Tok t) = None"
  by (simp add: pcjr_tandy_table_def dict_display_def)

lemma statements_claimed:
  "statements dialect (Tok ''END'') = Some (Exec_after_end ''session.end_'')"
  "statements dialect (Tok ''STOP'') = Some (Exec_after_end ''session.interpreter.stop_'')"
  "statements dialect (Tok ''SYSTEM'') = Some (Exec_after_end ''session.interpreter.system_'')"
  "statements dialect (Tok ''NEW'') = Some (Exec_after_end ''session.new_'')"
  "statements dialect (Tok ''WEND'') = Some (Exec_after_end ''session.interpreter.wend_'')"
  "statements dialect (Tok ''TRON'') = Some (Exec_immediate ''session.interpreter.tron_'')"
  "statements dialect (Tok ''TROFF'') = Some (Exec_immediate ''session.interpreter.troff_'')"
  "statements dialect (Tok ''CONT'') = Some (Exec_immediate ''session.interpreter.cont_'')"
  "statements dialect (Tok ''RESET'') = Some (Exec_immediate ''session.files.reset_'')"
  by (simp_all add: statements_base not_pcjr_tandy table_claimed)

lemma skip_blank_Tok: "skip_blank (Tok t # rest) = Tok t # rest"
  by (simp add: skip_blank_def blank_def)

lemma require_end_garbage: "garbage i \<Longrightarrow> require_end i = (Some STX, skip_blank i)"
  by (auto simp: garbage_def require_end_def split: list.splits)

lemma parse_statement_after_end:
  assumes "statements dialect (Tok kw) = Some (Exec_after_end cb)" and "garbage rest"
  shows "parse_statement h col dialect (Tok kw # rest, \<sigma>) = (Some STX, (skip_blank rest, \<sigma>))"
  using assms
  by (simp add: parse_statement_def skip_blank_Tok read_keyword_token_def lookup_statement_def
      run_handler_def exec_after_end_def next_do_def on_ins_def require_end_garbage)

lemma parse_statement_immediate:
  assumes "statements dialect (Tok kw) = Some (Exec_immediate cb)"
    and "call col cb [] (rest, \<sigma>) = (None, (rest', \<sigma>'))" and "garbage rest'"
  shows "parse_statement h col dialect (Tok kw # rest, \<sigma>) = (Some STX, (skip_blank rest', \<sigma>'))"
  using assms
  by (simp add: parse_statement_def skip_blank_Tok read_keyword_token_def lookup_statement_def
      run_handler_def exec_immediate_def next_do_def on_ins_def require_end_garbage)

text \<open>
  C3. END, STOP, SYSTEM, NEW and WEND are dispatched to \<open>exec_after_end\<close>: with
  trailing garbage the statement raises Syntax Error and the session is the one it
  started with, whatever the callback would do. TRON, TROFF, CONT and RESET are dispatched
  to \<open>exec_immediate\<close>: the callback runs first, and the Syntax Error for the trailing
  garbage is raised from the session that the callback left.
\<close>

theorem terminator_and_callback_order:
  "(garbage rest \<and> (kw, cb) \<in> {(''END'', ''session.end_''), (''STOP'', ''session.interpreter.stop_''),
        (''SYSTEM'', ''session.interpreter.system_''), (''NEW'', ''session.new_''),
        (''WEND'', ''session.interpreter.wend_'')} \<longrightarrow>
      statements dialect (Tok kw) = Some (Exec_after_end cb)
      \<and> parse_statement h col dialect (Tok kw # rest, \<sigma>) = (Some STX, (skip_blank rest, \<sigma>)))
   \<and> ((kw, cb) \<in> {(''TRON'', ''session.interpreter.tron_''), (''TROFF'', ''session.interpreter.troff_''),
        (''CONT'', ''session.interpreter.cont_''), (''RESET'', ''session.files.reset_'')}
      \<and> call col cb [] (rest, \<sigma>) = (None, (rest', \<sigma>')) \<and> garbage rest' \<longrightarrow>
      statements dialect (Tok kw) = Some (Exec_immediate cb)
      \<and> parse_statement h col dialect (Tok kw # rest, \<sigma>) = (Some STX, (skip_blank rest', \<sigma>')))"
proof (intro conjI impI)
  assume a: "garbage rest \<and> (kw, cb) \<in> {(''END'', ''session.end_''), (''STOP'', ''session.interpreter.stop_''),
        (''SYSTEM'', ''session.interpreter.system_''), (''NEW'', ''session.new_''),
        (''WEND'', ''session.interpreter.wend_'')}"
  then show t: "statements dialect (Tok kw) = Some (Exec_after_end cb)"
    using statements_claimed [of dialect] by auto
  from a show "parse_statement h col dialect (Tok kw # rest, \<sigma>) = (Some STX, (skip_blank rest, \<sigma>))"
    by (intro parse_statement_after_end [OF t]) simp
next
  assume a: "(kw, cb) \<in> {(''TRON'', ''session.interpreter.tron_''), (''TROFF'', ''session.interpreter.troff_''),
        (''CONT'', ''session.interpreter.cont_''), (''RESET'', ''session.files.reset_'')}
      \<and> call col cb [] (rest, \<sigma>) = (None, (rest', \<sigma>')) \<and> garbage rest'"
  then show t: "statements dialect (Tok kw) = Some (Exec_immediate cb)"
    using statements_claimed [of dialect] by auto
  from a show "parse_statement h col dialect (Tok kw # rest, \<sigma>) = (Some STX, (skip_blank rest', \<sigma>'))"
    by (intro parse_statement_immediate [OF t]) simp_all
qed

theorem terminator_and_callback_order_witness:
  "parse_statement roomy_host toy_collab ''advanced''
     ([Tok ''END'', Chr (CHR '' ''), Chr (CHR ''X'')], []) = (Some STX, ([Chr (CHR ''X'')], []))
   \<and> parse_statement roomy_host toy_collab ''advanced''
     ([Tok ''TRON'', Chr (CHR '' ''), Chr (CHR ''X'')], [])
       = (Some STX, ([Chr (CHR ''X'')], [''session.interpreter.tron_'']))"
proof -
  let ?rest = "[Chr (CHR '' ''), Chr (CHR ''X'')]"
  have g: "garbage ?rest"
    by (simp add: garbage_def skip_blank_def blank_def END_STATEMENT_def)
  have sb: "skip_blank ?rest = [Chr (CHR ''X'')]"
    by (simp add: skip_blank_def blank_def)
  have c: "call toy_collab ''session.interpreter.tron_'' [] (?rest, []) =
      (None, (?rest, [''session.interpreter.tron_'']))"
    by (simp add: toy_collab_def)
  from terminator_and_callback_order [where rest = ?rest and kw = "''END''"
      and cb = "''session.end_''" and dialect = "''advanced''" and h = roomy_host
      and col = toy_collab and \<sigma> = "[]"] g sb
  have one: "parse_statement roomy_host toy_collab ''advanced'' (Tok ''END'' # ?rest, [])
      = (Some STX, ([Chr (CHR ''X'')], []))"
    by simp
  from terminator_and_callback_order [where rest = ?rest and kw = "''TRON''"
      and cb = "''session.interpreter.tron_''" and dialect = "''advanced''" and h = roomy_host
      and col = toy_collab and \<sigma> = "[]" and rest' = ?rest
      and \<sigma>' = "[''session.interpreter.tron_'']"] g sb c
  have two: "parse_statement roomy_host toy_collab ''advanced'' (Tok ''TRON'' # ?rest, [])
      = (Some STX, ([Chr (CHR ''X'')], [''session.interpreter.tron_'']))"
    by simp
  from one two show ?thesis by simp
qed

subsection \<open>OPTION BASE\<close>

lemma require_read_hit:
  "\<not> blank x \<Longrightarrow> x \<in> set rng \<Longrightarrow> require_read rng (x # rest) = (Inr x, rest)"
  by (simp add: require_read_def skip_blank_def)

lemma require_read_miss:
  "\<not> blank x \<Longrightarrow> x \<notin> set rng \<Longrightarrow> require_read rng (x # rest) = (Inl STX, rest)"
  by (simp add: require_read_def skip_blank_def)

lemma exec_option_digit:
  assumes "x = CHR ''0'' \<or> x = CHR ''1''"
  shows "exec_option col (Tok ''W_BASE'' # Chr x # rest, \<sigma>) =
         call col ''session.arrays.option_base_'' [Sym (Chr x)] (rest, \<sigma>)"
  using assms
  by (auto simp: exec_option_def andthen_def on_ins_def require_read_hit blank_def)

lemma exec_option_other:
  assumes "\<not> blank x" and "x \<noteq> Chr (CHR ''0'')" and "x \<noteq> Chr (CHR ''1'')"
  shows "exec_option col (Tok ''W_BASE'' # x # rest, \<sigma>) = (Some STX, (rest, \<sigma>))"
  using assms
  by (simp add: exec_option_def andthen_def on_ins_def require_read_hit require_read_miss blank_def)

text \<open>
  C8. With no array in the store, OPTION BASE 0 sets the base to 0 and a second
  OPTION BASE 0 leaves the state as it is. With an array in the store, OPTION BASE 0 and
  OPTION BASE 1 raise Duplicate Definition (10) and change nothing. The argument is read
  as the character 0 or 1: any other symbol, such as the token of a numeric constant or
  the start of an expression, is a Syntax Error raised before the callback.
\<close>

theorem option_base_rules:
  assumes ob: "\<And>d c. call col ''session.arrays.option_base_'' [Sym d] c = option_base d c"
  shows "(arrays s = [] \<longrightarrow>
        exec_option col (Tok ''W_BASE'' # Chr (CHR ''0'') # rest, s) = (None, (rest, s\<lparr>array_base := 0\<rparr>))
      \<and> exec_option col (Tok ''W_BASE'' # Chr (CHR ''0'') # rest, s\<lparr>array_base := 0\<rparr>)
          = (None, (rest, s\<lparr>array_base := 0\<rparr>))
      \<and> base_array (s\<lparr>array_base := 0\<rparr>) 0 = (None, s\<lparr>array_base := 0\<rparr>))
    \<and> (arrays s \<noteq> [] \<and> (x = CHR ''0'' \<or> x = CHR ''1'') \<longrightarrow>
        exec_option col (Tok ''W_BASE'' # Chr x # rest, s) = (Some (RunError 10), (rest, s))
      \<and> base_array s (int (of_char x) - 48) = (Some (RunError 10), s))
    \<and> (\<not> blank y \<and> y \<noteq> Chr (CHR ''0'') \<and> y \<noteq> Chr (CHR ''1'') \<longrightarrow>
        exec_option col (Tok ''W_BASE'' # y # rest, s) = (Some STX, (rest, s)))"
proof (intro conjI impI)
  assume e: "arrays s = []"
  then show "exec_option col (Tok ''W_BASE'' # Chr (CHR ''0'') # rest, s) =
      (None, (rest, s\<lparr>array_base := 0\<rparr>))"
    by (simp add: exec_option_digit ob option_base_def base_array_def)
  from e show "exec_option col (Tok ''W_BASE'' # Chr (CHR ''0'') # rest, s\<lparr>array_base := 0\<rparr>)
          = (None, (rest, s\<lparr>array_base := 0\<rparr>))"
    by (simp add: exec_option_digit ob option_base_def base_array_def)
  from e show "base_array (s\<lparr>array_base := 0\<rparr>) 0 = (None, s\<lparr>array_base := 0\<rparr>)"
    by (simp add: base_array_def)
next
  assume a: "arrays s \<noteq> [] \<and> (x = CHR ''0'' \<or> x = CHR ''1'')"
  then show "exec_option col (Tok ''W_BASE'' # Chr x # rest, s) = (Some (RunError 10), (rest, s))"
    by (auto simp: exec_option_digit ob option_base_def base_array_def)
  from a show "base_array s (int (of_char x) - 48) = (Some (RunError 10), s)"
    by (auto simp: base_array_def)
next
  assume "\<not> blank y \<and> y \<noteq> Chr (CHR ''0'') \<and> y \<noteq> Chr (CHR ''1'')"
  then show "exec_option col (Tok ''W_BASE'' # y # rest, s) = (Some STX, (rest, s))"
    by (simp add: exec_option_other)
qed

theorem option_base_rules_witness:
  "exec_option var_collab ([Tok ''W_BASE'', Chr (CHR ''0'')], clear_variables)
     = (None, ([], clear_variables))
   \<and> exec_option var_collab ([Tok ''W_BASE'', Chr (CHR ''1'')],
        snd (dim_array roomy_host clear_variables ''A%'' [2, 3]))
     = (Some (RunError 10), ([], snd (dim_array roomy_host clear_variables ''A%'' [2, 3])))
   \<and> exec_option var_collab ([Tok ''W_BASE'', Chr (CHR 0x12)], clear_variables)
     = (Some STX, ([], clear_variables))"
proof -
  have ob: "\<And>d c. call var_collab ''session.arrays.option_base_'' [Sym d] c = option_base d c"
    by (simp add: var_collab_def)
  have e: "arrays clear_variables = []" by (simp add: clear_variables_def)
  have z: "clear_variables\<lparr>array_base := 0\<rparr> = clear_variables" by (simp add: clear_variables_def)
  have ne: "arrays (snd (dim_array roomy_host clear_variables ''A%'' [2, 3])) \<noteq> []"
    by (simp add: dim_array_def complete_name_def is_sigil_def clear_variables_def
        array_len_def index_array_def new_payload_def py_index_def var_size_bytes_def
        byte_size_def roomy_host_def array_size_bytes_def Let_def AList.update_conv')
  have nb: "\<not> blank (Chr (CHR 0x12))" by (simp add: blank_def)
  from option_base_rules [OF ob, where s = clear_variables and rest = "[]"] e z
  have one: "exec_option var_collab ([Tok ''W_BASE'', Chr (CHR ''0'')], clear_variables)
     = (None, ([], clear_variables))" by simp
  from option_base_rules [OF ob, where s = "snd (dim_array roomy_host clear_variables ''A%'' [2, 3])"
      and rest = "[]" and x = "CHR ''1''"] ne
  have two: "exec_option var_collab ([Tok ''W_BASE'', Chr (CHR ''1'')],
        snd (dim_array roomy_host clear_variables ''A%'' [2, 3]))
     = (Some (RunError 10), ([], snd (dim_array roomy_host clear_variables ''A%'' [2, 3])))"
    by simp
  from option_base_rules [OF ob, where s = clear_variables and rest = "[]"
      and y = "Chr (CHR 0x12)"] nb
  have three: "exec_option var_collab ([Tok ''W_BASE'', Chr (CHR 0x12)], clear_variables)
     = (Some STX, ([], clear_variables))" by simp
  from one two three show ?thesis by simp
qed

subsection \<open>FOR with a string or double loop variable\<close>

lemma require_read_empty: "skip_blank i = [] \<Longrightarrow> require_read rng i = (Inl STX, [])"
  by (simp add: require_read_def)

lemma require_read_found:
  "skip_blank i = x # xs \<Longrightarrow> x \<in> set rng \<Longrightarrow> require_read rng i = (Inr x, xs)"
  by (simp add: require_read_def)

lemma require_read_other:
  "skip_blank i = x # xs \<Longrightarrow> x \<notin> set rng \<Longrightarrow> require_read rng i = (Inl STX, xs)"
  by (simp add: require_read_def)

lemma exec_for_prefix:
  assumes pn: "parse_name col c = (Inr varname, (Tok ''O_EQ'' # i2, \<sigma>1))"
    and vn: "varname \<noteq> []"
    and pe: "parse_expression col (i2, \<sigma>1) = (Inr v, (i3, \<sigma>3))"
  shows "exec_for h col c =
    andthen (to_type h (last varname) v, (i3, \<sigma>3)) (\<lambda>start_value c5.
    andthen (on_ins (require_read [Tok ''TO'']) c5) (\<lambda>t c6.
       if last varname = CHR ''$'' \<or> last varname = CHR ''#'' then (Some TYPE_MISMATCH, c6)
       else exec_for_tail h col varname (last varname) start_value c6))"
  by (simp add: exec_for_def pn andthen_def py_index_last [OF vn] on_ins_def
      require_read_hit blank_def pe)

text \<open>
  C7, as the code has it. Let the loop variable complete to a string or a double name, and
  let the name, the equals sign and the start expression parse. The start value is coerced
  to the type of the variable before TO is looked for: a number for a string variable, or
  a string for a double variable, raises Type Mismatch there, whether TO follows or not.
  When the coercion succeeds, a missing TO is a Syntax Error, and with TO the statement
  raises Type Mismatch right after TO, the stop expression still unread.
\<close>

theorem for_rejects_string_and_double:
  assumes pn: "parse_name col c = (Inr varname, (Tok ''O_EQ'' # i2, \<sigma>1))"
    and vn: "varname \<noteq> []"
    and vt: "last varname = CHR ''$'' \<or> last varname = CHR ''#''"
    and pe: "parse_expression col (i2, \<sigma>1) = (Inr v, (i3, \<sigma>3))"
  shows "(\<forall>e. to_type h (last varname) v = Inl e \<longrightarrow> exec_for h col c = (Some e, (i3, \<sigma>3)))
    \<and> ((fst v = CHR ''$'') \<noteq> (last varname = CHR ''$'')
         \<longrightarrow> exec_for h col c = (Some TYPE_MISMATCH, (i3, \<sigma>3)))
    \<and> (\<forall>w. to_type h (last varname) v = Inr w \<longrightarrow>
          (\<forall>i4. skip_blank i3 = Tok ''TO'' # i4 \<longrightarrow>
                exec_for h col c = (Some TYPE_MISMATCH, (i4, \<sigma>3)))
        \<and> (\<forall>x i4. skip_blank i3 = x # i4 \<and> x \<noteq> Tok ''TO'' \<longrightarrow>
                exec_for h col c = (Some STX, (i4, \<sigma>3)))
        \<and> (skip_blank i3 = [] \<longrightarrow> exec_for h col c = (Some STX, ([], \<sigma>3))))"
proof -
  note pre = exec_for_prefix [OF pn vn pe, of h]
  have a: "exec_for h col c = (Some e, (i3, \<sigma>3))" if "to_type h (last varname) v = Inl e" for e
    using that by (simp add: pre andthen_def)
  have b: "exec_for h col c = (Some TYPE_MISMATCH, (i3, \<sigma>3))"
    if "(fst v = CHR ''$'') \<noteq> (last varname = CHR ''$'')"
  proof -
    from that vt have "to_type h (last varname) v = Inl TYPE_MISMATCH"
      by (auto simp: to_type_def pass_type_keep_def TYPE_MISMATCH_def)
    then show ?thesis by (rule a)
  qed
  have c1: "exec_for h col c = (Some TYPE_MISMATCH, (i4, \<sigma>3))"
    if "to_type h (last varname) v = Inr w" "skip_blank i3 = Tok ''TO'' # i4" for w i4
    using that vt by (simp add: pre andthen_def on_ins_def require_read_found)
  have c2: "exec_for h col c = (Some STX, (i4, \<sigma>3))"
    if "to_type h (last varname) v = Inr w" "skip_blank i3 = x # i4 \<and> x \<noteq> Tok ''TO''" for w x i4
    using that by (simp add: pre andthen_def on_ins_def require_read_other)
  have c3: "exec_for h col c = (Some STX, ([], \<sigma>3))"
    if "to_type h (last varname) v = Inr w" "skip_blank i3 = []" for w
    using that by (simp add: pre andthen_def on_ins_def require_read_empty)
  from a b c1 c2 c3 show ?thesis by blast
qed

lemma toy_name: "parse_name toy_collab (Chr (CHR ''A'') # Chr (CHR ''$'') # rest, \<sigma>) =
    (Inr ''A$'', (rest, \<sigma>))"
  by (simp add: parse_name_def toy_collab_def complete_name_def is_sigil_def)

theorem for_rejects_string_and_double_witness:
  "exec_for roomy_host toy_collab
     ([Chr (CHR ''A''), Chr (CHR ''$''), Tok ''O_EQ'', Chr (CHR 0x22), Tok ''TO'', Chr (CHR ''5'')], [])
     = (Some TYPE_MISMATCH, ([Chr (CHR ''5'')], []))
   \<and> exec_for roomy_host toy_collab
     ([Chr (CHR ''A''), Chr (CHR ''$''), Tok ''O_EQ'', Chr (CHR 0x22), Chr (CHR ''5'')], [])
     = (Some STX, ([], []))"
proof -
  have pe: "parse_expression toy_collab (Chr (CHR 0x22) # rest, []) = (Inr (CHR ''$'', []), (rest, []))"
    for rest
    by (simp add: parse_expression_def toy_collab_def)
  have tt: "to_type roomy_host (last ''A$'') (CHR ''$'', []) = Inr (CHR ''$'', [])"
    by (simp add: to_type_def pass_type_keep_def)
  have s1: "skip_blank [Tok ''TO'', Chr (CHR ''5'')] = Tok ''TO'' # [Chr (CHR ''5'')]"
    by (simp add: skip_blank_def blank_def)
  have s2: "skip_blank [Chr (CHR ''5'')] = Chr (CHR ''5'') # []"
    by (simp add: skip_blank_def blank_def)
  from for_rejects_string_and_double [OF toy_name _ _ pe [of "[Tok ''TO'', Chr (CHR ''5'')]"],
      of roomy_host] tt s1
  have one: "exec_for roomy_host toy_collab
     ([Chr (CHR ''A''), Chr (CHR ''$''), Tok ''O_EQ'', Chr (CHR 0x22), Tok ''TO'', Chr (CHR ''5'')], [])
     = (Some TYPE_MISMATCH, ([Chr (CHR ''5'')], []))"
    by simp
  from for_rejects_string_and_double [OF toy_name _ _ pe [of "[Chr (CHR ''5'')]"],
      of roomy_host] tt s2
  have two: "exec_for roomy_host toy_collab
     ([Chr (CHR ''A''), Chr (CHR ''$''), Tok ''O_EQ'', Chr (CHR 0x22), Chr (CHR ''5'')], [])
     = (Some STX, ([], []))"
    by auto
  from one two show ?thesis by simp
qed

text \<open>
  C7 as the spec words it promises a Syntax Error when TO is missing. In
  \<open>FOR A$ = 1 X\<close> TO is missing and the statement raises Type Mismatch.
\<close>

theorem for_missing_to_counterexample:
  "exec_for roomy_host toy_collab
     ([Chr (CHR ''A''), Chr (CHR ''$''), Tok ''O_EQ'', Chr (CHR ''1''), Chr (CHR '' ''),
       Chr (CHR ''X'')], [])
     = (Some TYPE_MISMATCH, ([Chr (CHR '' ''), Chr (CHR ''X'')], []))
   \<and> TYPE_MISMATCH \<noteq> STX"
  by (simp add: exec_for_def andthen_def on_ins_def parse_name_def toy_collab_def
      complete_name_def is_sigil_def py_index_def require_read_def skip_blank_def blank_def
      parse_expression_def to_type_def pass_type_keep_def TYPE_MISMATCH_def STX_def Let_def)

subsection \<open>ON with a calculated jump\<close>

lemma skip_blank_nonblank: "\<not> blank x \<Longrightarrow> skip_blank (x # xs) = x # xs"
  by (simp add: skip_blank_def)

lemma skip_blank_idem: "skip_blank (skip_blank i) = skip_blank i"
  by (simp add: skip_blank_def dropWhile_idem)

lemma parse_jumpnum_token:
  assumes "n < 65536"
  shows "parse_jumpnum (jumpnum_token n @ rest) = (Inr (int n), rest)"
proof -
  have d: "n div 256 mod 256 = n div 256" using assms by simp
  have "n mod 256 + 256 * (n div 256) = n" by simp
  then have "int (n mod 256) + 256 * int (n div 256) = int n"
    by (metis of_nat_add of_nat_mult of_nat_numeral)
  then show ?thesis
    by (simp add: parse_jumpnum_def jumpnum_token_def require_read_hit blank_def d)
qed

lemma comma_read:
  "skip_blank_read_if [Chr (CHR '','')] (Chr (CHR '','') # rest) = (Some (Chr (CHR '','')), rest)"
  by (simp add: skip_blank_read_if_def skip_blank_nonblank blank_def)

lemma ended_facts:
  assumes "\<not> garbage rest"
  shows "skip_blank_read_if [Chr (CHR '','')] rest = (None, skip_blank rest)"
    and "require_end rest = (None, skip_blank rest)"
    and "require_end (skip_blank rest) = (None, skip_blank rest)"
    and "parse_optional_jumpnum rest m = (Inr m, skip_blank rest)"
  using assms
  by (auto simp: garbage_def skip_blank_read_if_def require_end_def parse_optional_jumpnum_def
      skip_blank_idem END_STATEMENT_def split: list.splits)

lemma parse_optional_token:
  "n < 65536 \<Longrightarrow> parse_optional_jumpnum (jumpnum_token n @ rest) m = (Inr (int n), rest)"
  using parse_jumpnum_token [of n rest]
  by (simp add: parse_optional_jumpnum_def jumpnum_token_def skip_blank_nonblank blank_def)

lemma skip_jumps_prefix:
  "\<forall>n \<in> set ns. n < 65536 \<Longrightarrow> skip_jumps (length ns) (jump_prefix ns rest) = (Inr False, rest)"
  by (induction ns) (simp_all add: parse_jumpnum_token comma_read)

lemma skip_jumps_malformed:
  "\<forall>n \<in> set ns. n < 65536 \<Longrightarrow> length ns < k \<Longrightarrow> parse_jumpnum bad = (Inl e, b1) \<Longrightarrow>
   skip_jumps k (jump_prefix ns bad) = (Inl e, b1)"
proof (induction ns arbitrary: k)
  case Nil
  then obtain k' where "k = Suc k'" by (cases k) auto
  with Nil show ?case by simp
next
  case (Cons n ns)
  then obtain k' where k: "k = Suc k'" by (cases k) auto
  with Cons show ?case by (simp add: parse_jumpnum_token comma_read)
qed

lemma skip_jumps_short:
  "\<forall>n \<in> set ns. n < 65536 \<Longrightarrow> m < 65536 \<Longrightarrow> length ns < k \<Longrightarrow> \<not> garbage rest \<Longrightarrow>
   skip_jumps k (jump_prefix ns (jumpnum_token m @ rest)) = (Inr True, skip_blank rest)"
proof (induction ns arbitrary: k)
  case Nil
  then obtain k' where "k = Suc k'" by (cases k) auto
  with Nil show ?case by (simp add: parse_jumpnum_token ended_facts)
next
  case (Cons n ns)
  then obtain k' where k: "k = Suc k'" by (cases k) auto
  with Cons show ?case by (simp add: parse_jumpnum_token comma_read)
qed

lemma check_all_jumps_end:
  "\<not> garbage rest \<Longrightarrow> check_all_jumps rest = (None, skip_blank rest)"
  by (subst check_all_jumps.simps) (simp add: ended_facts)

lemma check_all_jumps_list:
  "\<forall>n \<in> set ns. n < 65536 \<Longrightarrow> m < 65536 \<Longrightarrow> \<not> garbage rest \<Longrightarrow>
   check_all_jumps (jump_prefix ns (jumpnum_token m @ rest)) = (None, skip_blank rest)"
proof (induction ns)
  case Nil
  then show ?case
    by (subst check_all_jumps.simps) (simp add: parse_optional_token ended_facts)
next
  case (Cons n ns)
  then show ?case
    by (subst check_all_jumps.simps) (simp add: parse_optional_token comma_read)
qed

lemma check_all_jumps_malformed:
  assumes "\<forall>n \<in> set ns. n < 65536" and "garbage bad"
    and "\<forall>xs. skip_blank bad \<noteq> Tok ''T_UINT'' # xs"
  shows "check_all_jumps (jump_prefix ns bad) = (Some STX, skip_blank bad)"
  using assms(1)
proof (induction ns)
  case Nil
  from assms(2,3) have "parse_optional_jumpnum bad (- 1) = (Inr (- 1), skip_blank bad)"
    by (auto simp: parse_optional_jumpnum_def garbage_def split: list.splits)
  moreover from assms(2) have "require_end (skip_blank bad) = (Some STX, skip_blank bad)"
    by (auto simp: require_end_def garbage_def skip_blank_idem split: list.splits)
  ultimately show ?case by (subst check_all_jumps.simps) simp
next
  case (Cons n ns)
  then show ?case
    by (subst check_all_jumps.simps) (simp add: parse_optional_token comma_read)
qed

lemma exec_on_jump_prefix:
  assumes pe: "parse_expression col c = (Inr v, (i1, \<sigma>1))"
    and ti: "to_int h v = Inr n"
    and rg: "0 \<le> n" "n \<le> 255"
    and cm: "skip_blank i1 = command # i2" "command = Tok ''GOTO'' \<or> command = Tok ''GOSUB''"
  shows "exec_on_jump h col c =
    (if n = 0 \<or> n = 255 then on_ins check_all_jumps (i2, \<sigma>1)
     else
       andthen (on_ins (skip_jumps (nat (n - 1))) (i2, \<sigma>1)) (\<lambda>returned c5.
         if returned then (None, c5)
         else
           andthen (on_ins parse_jumpnum c5) (\<lambda>jumpnum c6.
             if command = Tok ''GOTO''
             then call col ''session.interpreter.jump'' [Num jumpnum] c6
             else if command = Tok ''GOSUB''
             then call col ''session.interpreter.jump_sub'' [Num jumpnum] c6
             else (None, c6))))"
proof -
  have rr: "require_read [Tok ''GOTO'', Tok ''GOSUB''] i1 = (Inr command, i2)"
    using cm by (auto simp: require_read_def)
  show ?thesis
    using rg by (simp add: exec_on_jump_def pe ti andthen_def range_check_def on_ins_def rr)
qed

text \<open>
  C5. Let the selector expression parse and convert to the integer \<open>n\<close>, and let GOTO
  or GOSUB follow. Outside 0..255 the statement raises Illegal Function Call. For 0 and
  255 the whole list is parsed and no jump is taken: a well-formed list up to the end of
  the statement returns normally, and an entry that is not a line number pointer raises
  Syntax Error. For any other \<open>n\<close> the first \<open>n - 1\<close> jump numbers are skipped, the
  \<open>n\<close>-th is read, and the jump or the subroutine call goes to it; an entry that does
  not parse among the first \<open>n\<close> raises its error although it is not jumped to. When
  the list has fewer than \<open>n\<close> entries and the statement ends after it, no jump is
  taken.
\<close>

theorem computed_jump:
  assumes pe: "parse_expression col c = (Inr v, (i1, \<sigma>1))"
    and ti: "to_int h v = Inr n"
    and cm: "skip_blank i1 = command # i2" "command = Tok ''GOTO'' \<or> command = Tok ''GOSUB''"
    and ok: "\<forall>x \<in> set ns. x < 65536" "m < 65536"
  shows "(n < 0 \<or> 255 < n \<longrightarrow> exec_on_jump h col c = (Some IFC, (i1, \<sigma>1)))
    \<and> ((n = 0 \<or> n = 255) \<and> i2 = jump_prefix ns (jumpnum_token m @ rest) \<and> \<not> garbage rest
         \<longrightarrow> exec_on_jump h col c = (None, (skip_blank rest, \<sigma>1)))
    \<and> ((n = 0 \<or> n = 255) \<and> i2 = jump_prefix ns bad \<and> garbage bad
           \<and> (\<forall>xs. skip_blank bad \<noteq> Tok ''T_UINT'' # xs)
         \<longrightarrow> exec_on_jump h col c = (Some STX, (skip_blank bad, \<sigma>1)))
    \<and> (1 \<le> n \<and> n \<le> 254 \<and> i2 = jump_prefix ns (jumpnum_token m @ rest) \<and> n = int (length ns) + 1
         \<longrightarrow> exec_on_jump h col c =
               call col (if command = Tok ''GOTO'' then ''session.interpreter.jump''
                         else ''session.interpreter.jump_sub'') [Num (int m)] (rest, \<sigma>1))
    \<and> (1 \<le> n \<and> n \<le> 254 \<and> i2 = jump_prefix ns bad \<and> int (length ns) < n
           \<and> parse_jumpnum bad = (Inl e, b1)
         \<longrightarrow> exec_on_jump h col c = (Some e, (b1, \<sigma>1)))
    \<and> (1 \<le> n \<and> n \<le> 254 \<and> i2 = jump_prefix ns (jumpnum_token m @ rest)
           \<and> int (length ns) + 1 < n \<and> \<not> garbage rest
         \<longrightarrow> exec_on_jump h col c = (None, (skip_blank rest, \<sigma>1)))"
proof (intro conjI impI)
  assume "n < 0 \<or> 255 < n"
  then show "exec_on_jump h col c = (Some IFC, (i1, \<sigma>1))"
    by (auto simp: exec_on_jump_def pe ti andthen_def range_check_def)
next
  assume a: "(n = 0 \<or> n = 255) \<and> i2 = jump_prefix ns (jumpnum_token m @ rest) \<and> \<not> garbage rest"
  then have "exec_on_jump h col c = on_ins check_all_jumps (i2, \<sigma>1)"
    using exec_on_jump_prefix [OF pe ti _ _ cm] by auto
  with a show "exec_on_jump h col c = (None, (skip_blank rest, \<sigma>1))"
    by (simp add: on_ins_def check_all_jumps_list [OF ok])
next
  assume a: "(n = 0 \<or> n = 255) \<and> i2 = jump_prefix ns bad \<and> garbage bad
           \<and> (\<forall>xs. skip_blank bad \<noteq> Tok ''T_UINT'' # xs)"
  then have "exec_on_jump h col c = on_ins check_all_jumps (i2, \<sigma>1)"
    using exec_on_jump_prefix [OF pe ti _ _ cm] by auto
  with a show "exec_on_jump h col c = (Some STX, (skip_blank bad, \<sigma>1))"
    by (simp add: on_ins_def check_all_jumps_malformed [OF ok(1)])
next
  assume a: "1 \<le> n \<and> n \<le> 254 \<and> i2 = jump_prefix ns (jumpnum_token m @ rest) \<and> n = int (length ns) + 1"
  then have k: "nat (n - 1) = length ns" by simp
  from a have "n \<noteq> 0" "n \<noteq> 255" "0 \<le> n" "n \<le> 255" by simp_all
  then show "exec_on_jump h col c =
               call col (if command = Tok ''GOTO'' then ''session.interpreter.jump''
                         else ''session.interpreter.jump_sub'') [Num (int m)] (rest, \<sigma>1)"
    using a cm(2)
    by (auto simp: exec_on_jump_prefix [OF pe ti _ _ cm] k on_ins_def andthen_def
        skip_jumps_prefix [OF ok(1)] parse_jumpnum_token [OF ok(2)])
next
  assume a: "1 \<le> n \<and> n \<le> 254 \<and> i2 = jump_prefix ns bad \<and> int (length ns) < n
           \<and> parse_jumpnum bad = (Inl e, b1)"
  from a have r: "n \<noteq> 0" "n \<noteq> 255" "0 \<le> n" "n \<le> 255" by simp_all
  show "exec_on_jump h col c = (Some e, (b1, \<sigma>1))"
  proof (cases "length ns < nat (n - 1)")
    case True
    with a r show ?thesis
      by (simp add: exec_on_jump_prefix [OF pe ti _ _ cm] on_ins_def andthen_def
          skip_jumps_malformed [OF ok(1)])
  next
    case False
    from a have "int (length ns) < n" by simp
    with False have k: "nat (n - 1) = length ns" by linarith
    with a r show ?thesis
      by (simp add: exec_on_jump_prefix [OF pe ti _ _ cm] on_ins_def andthen_def
          skip_jumps_prefix [OF ok(1)])
  qed
next
  assume a: "1 \<le> n \<and> n \<le> 254 \<and> i2 = jump_prefix ns (jumpnum_token m @ rest)
           \<and> int (length ns) + 1 < n \<and> \<not> garbage rest"
  from a have r: "n \<noteq> 0" "n \<noteq> 255" "0 \<le> n" "n \<le> 255" by simp_all
  from a have "int (length ns) + 1 < n" by blast
  then have k: "length ns < nat (n - 1)" by linarith
  from a r show "exec_on_jump h col c = (None, (skip_blank rest, \<sigma>1))"
    by (simp add: exec_on_jump_prefix [OF pe ti _ _ cm] on_ins_def andthen_def
        skip_jumps_short [OF ok k])
qed

theorem computed_jump_witness:
  "exec_on_jump roomy_host toy_collab
     (Chr (CHR ''2'') # Tok ''GOTO'' #
        jump_prefix [100] (jumpnum_token 200 @ Chr (CHR '','') # jumpnum_token 300), [])
     = (None, (Chr (CHR '','') # jumpnum_token 300, [''session.interpreter.jump'']))
   \<and> exec_on_jump roomy_host toy_collab
     (Chr (CHR ''0'') # Tok ''GOSUB'' # jump_prefix [100] (jumpnum_token 200 @ []), [])
     = (None, ([], []))"
proof -
  have pe: "parse_expression toy_collab (Chr (CHR ''2'') # i, []) = (Inr (CHR ''%'', [2, 0]), (i, []))"
    "parse_expression toy_collab (Chr (CHR ''0'') # i, []) = (Inr (CHR ''%'', [0, 0]), (i, []))"
    for i
    by (simp_all add: parse_expression_def toy_collab_def)
  have ti: "to_int roomy_host (CHR ''%'', [2, 0]) = Inr 2"
    "to_int roomy_host (CHR ''%'', [0, 0]) = Inr 0"
    by (simp_all add: to_int_def pass_type_keep_def int16_def)
  have sb: "skip_blank (Tok t # i) = Tok t # i" for t i
    by (simp add: skip_blank_def blank_def)
  have ng: "\<not> garbage []" by (simp add: garbage_def skip_blank_def)
  have cl: "call toy_collab ''session.interpreter.jump'' [Num 200] (i, []) =
      (None, (i, [''session.interpreter.jump'']))" for i
    by (simp add: toy_collab_def)
  from computed_jump [OF pe(1) ti(1) sb, where ns = "[100]" and m = 200
      and rest = "Chr (CHR '','') # jumpnum_token 300"] cl
  have one: "exec_on_jump roomy_host toy_collab
     (Chr (CHR ''2'') # Tok ''GOTO'' #
        jump_prefix [100] (jumpnum_token 200 @ Chr (CHR '','') # jumpnum_token 300), [])
     = (None, (Chr (CHR '','') # jumpnum_token 300, [''session.interpreter.jump'']))"
    by simp
  from computed_jump [OF pe(2) ti(2) sb, where ns = "[100]" and m = 200 and rest = "[]"] ng
  have two: "exec_on_jump roomy_host toy_collab
     (Chr (CHR ''0'') # Tok ''GOSUB'' # jump_prefix [100] (jumpnum_token 200 @ []), [])
     = (None, ([], []))"
    by (simp add: skip_blank_def)
  from one two show ?thesis by simp
qed

subsection \<open>Simulated memory with more than one scalar\<close>

text \<open>
  After its search loop \<open>get_var_memory\<close> goes on with the loop variables, which hold
  the entry iterated last. With two scalars stored, whichever of them the dictionary yields
  last, reading the first byte of the record of the other one fails: the offset is taken
  from the wrong record and the name is indexed out of range.
\<close>

lemma two_scalars_misread:
  "(let s = snd (set_var roomy_host
                  (snd (set_var roomy_host clear_variables ''A!'' (CHR ''!'', [1, 2, 3, 4])))
                  ''B%'' (CHR ''%'', [5, 6]))
    in var_memory s = [(''A!'', 4720, 4724, - 1), (''B%'', 4728, 4732, - 1)]
     \<and> get_var_memory s 4720 = Inl IndexError
     \<and> get_var_memory (s\<lparr>var_memory := rev (var_memory s)\<rparr>) 4728 = Inl IndexError)"
  by (simp add: set_var_def set_var_memory_def complete_name_def is_sigil_def py_index_def
      pass_type_keep_def clear_variables_def byte_size_def var_mem_start_def total_mem_def
      Let_def get_var_memory_def scalar_memory_def get_name_in_memory_def upper_def ord_def)

end
